theory Spec2Isabelle
  imports Complex_Main
begin

section \<open>Values of the cloud API: JSON data as Python sees it\<close>

text \<open>
  The capability dictionary, the appliance state and the catalog's capability descriptions are
  what \<^verbatim>\<open>json.loads\<close> produces: None, booleans, integers, floats, strings, lists and
  dictionaries with string keys. A Python dictionary keeps its keys in insertion order, so a
  dictionary is an association list; a finite float is the rational number it denotes.
\<close>

datatype json =
    JNull
  | JBool bool
  | JInt int
  | JFloat rat
  | JStr string
  | JList "json list"
  | JDict "(string \<times> json) list"

type_synonym dict = "(string \<times> json) list"

text \<open>The exceptions the modelled code can raise; all of them are subclasses of Exception.\<close>

datatype error =
    AttributeError
  | KeyError string
  | TypeError
  | IndexError
  | UnboundLocalError

text \<open>Python's truth value of an object, as tested by \<^verbatim>\<open>if x\<close>, \<^verbatim>\<open>not x\<close>, \<^verbatim>\<open>and\<close>, \<^verbatim>\<open>or\<close>.\<close>

fun truthy :: "json \<Rightarrow> bool" where
  "truthy JNull = False"
| "truthy (JBool b) = b"
| "truthy (JInt n) = (n \<noteq> 0)"
| "truthy (JFloat x) = (x \<noteq> 0)"
| "truthy (JStr s) = (s \<noteq> [])"
| "truthy (JList xs) = (xs \<noteq> [])"
| "truthy (JDict d) = (d \<noteq> [])"

text \<open>\<^verbatim>\<open>d.get(k, None)\<close> on a dictionary.\<close>

definition dict_get :: "dict \<Rightarrow> string \<Rightarrow> json" where
  "dict_get d k = (case map_of d k of None \<Rightarrow> JNull | Some v \<Rightarrow> v)"

text \<open>
  \<^verbatim>\<open>x.get(k, None)\<close> on any value: only a dictionary has the method, every other value
  raises AttributeError.
\<close>

fun py_get :: "json \<Rightarrow> string \<Rightarrow> error + json" where
  "py_get (JDict d) k = Inr (dict_get d k)"
| "py_get _ k = Inl AttributeError"

text \<open>\<^verbatim>\<open>d[k] = v\<close>: an existing key keeps its position, a new key goes to the end.\<close>

fun dict_set :: "dict \<Rightarrow> string \<Rightarrow> json \<Rightarrow> dict" where
  "dict_set [] k v = [(k, v)]"
| "dict_set ((k', v') # d) k v = (if k' = k then (k, v) # d else (k', v') # dict_set d k v)"

text \<open>\<^verbatim>\<open>isinstance(x, dict)\<close>.\<close>

fun is_dict :: "json \<Rightarrow> bool" where
  "is_dict (JDict d) = True"
| "is_dict _ = False"

text \<open>\<^verbatim>\<open>len(x)\<close> for the values that have a length.\<close>

fun py_len :: "json \<Rightarrow> nat" where
  "py_len (JDict d) = length d"
| "py_len (JList xs) = length xs"
| "py_len (JStr s) = length s"
| "py_len _ = 0"

section \<open>Entity kinds\<close>

text \<open>
  The constants SENSOR, BINARY_SENSOR, SWITCH, NUMBER, SELECT and BUTTON are imported from
  \<^verbatim>\<open>const.py\<close>; the code only compares them with each other, and they are taken to be
  pairwise distinct.
\<close>

datatype entity_kind = SENSOR | BINARY_SENSOR | SWITCH | NUMBER | SELECT | BUTTON

section \<open>ElectroluxLibraryEntity.get\_entity\_type\<close>

text \<open>
  The body of \<^verbatim>\<open>get_entity_type\<close> once \<^verbatim>\<open>capability_def\<close> is known to be a true
  dictionary: the two early returns on a missing type or access, the switch exception, the
  select rule and the \<^verbatim>\<open>match\<close> statement. Python's None result is \<open>None\<close>.
\<close>

definition entity_type_of_def :: "dict \<Rightarrow> entity_kind option" where
  "entity_type_of_def capability_def =
    (let type_object = dict_get capability_def ''type'' in
     if \<not> truthy type_object then None
     else
      let access = dict_get capability_def ''access'' in
      if \<not> truthy access then None
      else if type_object = JStr ''boolean'' \<and> access = JStr ''readwrite''
              \<and> dict_get capability_def ''values'' \<noteq> JNull
        then Some SWITCH
      else
       let values = dict_get capability_def ''values'' in
       if (truthy values \<and> access = JStr ''readwrite'' \<and> is_dict values \<and> py_len values > 0)
          \<and> (type_object \<noteq> JStr ''number'' \<or> dict_get capability_def ''min'' = JNull)
         then Some SELECT
       else if type_object = JStr ''boolean'' then
         (if access = JStr ''read'' then Some BINARY_SENSOR
          else if access = JStr ''readwrite'' then Some SWITCH
          else None)
       else if type_object = JStr ''temperature'' then
         (if access = JStr ''read'' then Some SENSOR
          else if access = JStr ''readwrite'' then Some NUMBER
          else None)
       else
         (if access = JStr ''read''
             \<and> type_object \<in> set [JStr ''number'', JStr ''int'', JStr ''boolean'', JStr ''string'']
            then Some SENSOR
          else if type_object \<in> set [JStr ''int'', JStr ''number''] then Some NUMBER
          else None))"

text \<open>
  \<^verbatim>\<open>get_entity_type(attr_name)\<close>. The attribute \<^verbatim>\<open>capabilities\<close> is a dictionary or None;
  \<^verbatim>\<open>None.get\<close> raises AttributeError, and so does \<^verbatim>\<open>.get\<close> on a true capability
  definition that is not a dictionary.
\<close>

definition get_entity_type :: "dict option \<Rightarrow> string \<Rightarrow> error + entity_kind option" where
  "get_entity_type capabilities attr_name =
    (case capabilities of
       None \<Rightarrow> Inl AttributeError
     | Some caps \<Rightarrow>
        (let capability_def = dict_get caps attr_name in
         if \<not> truthy capability_def then Inr None
         else (case capability_def of
                 JDict cd \<Rightarrow> Inr (entity_type_of_def cd)
               | _ \<Rightarrow> Inl AttributeError)))"

text \<open>
  The decision table as the specification gives it, for the capability definitions that the
  switch exception and the select rule have not claimed. A row names the types and the access it
  applies to, whether it needs the "values" entry to be absent (\<open>Some False\<close>) or does not
  look at it (\<open>None\<close>), and the entity kind. The rows are read in the order of the table and
  the first row that applies decides, so that boolean with access read is a binary sensor.
\<close>

definition decision_rows :: "(string list \<times> string \<times> bool option \<times> entity_kind) list" where
  "decision_rows =
    [([''boolean''], ''read'', None, BINARY_SENSOR),
     ([''boolean''], ''readwrite'', Some False, SWITCH),
     ([''temperature''], ''read'', None, SENSOR),
     ([''temperature''], ''readwrite'', None, NUMBER),
     ([''number'', ''int'', ''boolean'', ''string''], ''read'', None, SENSOR),
     ([''int'', ''number''], ''readwrite'', Some False, NUMBER)]"

definition row_applies :: "string \<Rightarrow> string \<Rightarrow> bool \<Rightarrow> (string list \<times> string \<times> bool option \<times> entity_kind) \<Rightarrow> bool" where
  "row_applies t a has_values row =
    (case row of (types, access, values_col, kind) \<Rightarrow>
       t \<in> set types \<and> a = access \<and> (values_col = None \<or> values_col = Some has_values))"

definition decision_table :: "string \<Rightarrow> string \<Rightarrow> bool \<Rightarrow> entity_kind option" where
  "decision_table t a has_values =
    map_option (\<lambda>(types, access, values_col, kind). kind)
      (find (row_applies t a has_values) decision_rows)"

section \<open>Strings\<close>

text \<open>
  Identifiers are ASCII. The character tests and case conversions of Python are modelled on the
  ASCII range, where \<^verbatim>\<open>isupper\<close> holds of A to Z, \<^verbatim>\<open>islower\<close> of a to z and
  \<^verbatim>\<open>isdigit\<close> of 0 to 9; every other character is neither, and the case conversions leave
  it as it is.
\<close>

definition ascii :: "char \<Rightarrow> bool" where
  "ascii c = ((of_char c :: nat) < 128)"

definition upper_letters :: string where
  "upper_letters = ''ABCDEFGHIJKLMNOPQRSTUVWXYZ''"

definition lower_letters :: string where
  "lower_letters = ''abcdefghijklmnopqrstuvwxyz''"

definition isupper :: "char \<Rightarrow> bool" where
  "isupper c = (c \<in> set upper_letters)"

definition islower :: "char \<Rightarrow> bool" where
  "islower c = (c \<in> set lower_letters)"

definition isdigit :: "char \<Rightarrow> bool" where
  "isdigit c = (c \<in> set ''0123456789'')"

definition char_upper :: "char \<Rightarrow> char" where
  "char_upper c = (case map_of (zip lower_letters upper_letters) c of Some u \<Rightarrow> u | None \<Rightarrow> c)"

definition char_lower :: "char \<Rightarrow> char" where
  "char_lower c = (case map_of (zip upper_letters lower_letters) c of Some l \<Rightarrow> l | None \<Rightarrow> c)"

text \<open>\<^verbatim>\<open>s.lower()\<close>.\<close>

definition str_lower :: "string \<Rightarrow> string" where
  "str_lower s = map char_lower s"

text \<open>\<^verbatim>\<open>s.replace(a, b)\<close> for single characters.\<close>

definition str_replace :: "char \<Rightarrow> char \<Rightarrow> string \<Rightarrow> string" where
  "str_replace a b s = map (\<lambda>c. if c = a then b else c) s"

text \<open>\<^verbatim>\<open>s.startswith(p)\<close>.\<close>

definition startswith :: "string \<Rightarrow> string \<Rightarrow> bool" where
  "startswith s p = (take (length p) s = p)"

text \<open>
  \<^verbatim>\<open>s.rpartition(sep)\<close> for a one-character separator: the text before the last
  separator, the separator and the text after it; without a separator, two empty strings and
  the whole string.
\<close>

definition rpartition :: "string \<Rightarrow> char \<Rightarrow> string \<times> string \<times> string" where
  "rpartition s sep =
    (if sep \<in> set s
     then (rev (tl (dropWhile (\<lambda>c. c \<noteq> sep) (rev s))), [sep], rev (takeWhile (\<lambda>c. c \<noteq> sep) (rev s)))
     else ([], [], s))"

text \<open>\<^verbatim>\<open>sep.join(words)\<close>.\<close>

fun join :: "string \<Rightarrow> string list \<Rightarrow> string" where
  "join sep [] = []"
| "join sep [w] = w"
| "join sep (w # ws) = w @ sep @ join sep ws"

text \<open>
  \<^verbatim>\<open>re.match("^[A-Z0-9]+$", group)\<close>: one or more capitals or digits up to the end of the
  string, where \<^verbatim>\<open>$\<close> also matches just before a newline that ends the string.
\<close>

definition re_match_caps :: "string \<Rightarrow> bool" where
  "re_match_caps grp =
    (let body = (if grp \<noteq> [] \<and> last grp = CHR 0x0A then butlast grp else grp)
     in body \<noteq> [] \<and> (\<forall>c \<in> set body. isupper c \<or> isdigit c))"

section \<open>ElectroluxLibraryEntity: names\<close>

text \<open>\<^verbatim>\<open>get_category\<close>: the text before the last "/", or "" if there is none.\<close>

definition get_category :: "string \<Rightarrow> string" where
  "get_category attr_name = fst (rpartition attr_name CHR ''/'')"

text \<open>
  \<^verbatim>\<open>get_entity_name\<close>: \<^verbatim>\<open>attr_name.rpartition("/")[-1] or attr_name\<close>, the text after the
  last "/", and the whole name when that text is empty.
\<close>

definition get_entity_name :: "string \<Rightarrow> string" where
  "get_entity_name attr_name =
    (let last_part = snd (snd (rpartition attr_name CHR ''/''))
     in if last_part \<noteq> [] then last_part else attr_name)"

text \<open>
  The word that \<^verbatim>\<open>get_sensor_name\<close> appends at a case change and at the end: the group
  itself when the regular expression matches it, its lower case otherwise.
\<close>

definition finish_group :: "string \<Rightarrow> string" where
  "finish_group grp = (if re_match_caps grp then grp else str_lower grp)"

text \<open>\<^verbatim>\<open>s[i - 1]\<close>: index \<open>-1\<close> is the last character.\<close>

definition char_before :: "string \<Rightarrow> nat \<Rightarrow> char" where
  "char_before s i = (if i = 0 then last s else s ! (i - 1))"

text \<open>
  The loop \<^verbatim>\<open>for i in range(len(s))\<close> of \<^verbatim>\<open>get_sensor_name\<close>, from index \<open>i\<close> on, with
  the variables \<^verbatim>\<open>group\<close> (here \<open>grp\<close>) and \<^verbatim>\<open>words\<close> as state.
\<close>

function sensor_name_loop :: "string \<Rightarrow> nat \<Rightarrow> string \<Rightarrow> string list \<Rightarrow> string \<times> string list" where
  "sensor_name_loop s i grp words =
    (if i < length s then
       (let char = s ! i in
        if grp = [] then sensor_name_loop s (i + 1) [char] words
        else if char = CHR '' '' \<and> length grp > 0
          then sensor_name_loop s (i + 1) [] (words @ [grp])
        else if (isupper char \<or> isdigit char)
                \<and> (isupper (char_before s i) \<or> isdigit (char_before s i))
                \<and> (i = length s - 1 \<or> (isupper (s ! (i + 1)) \<or> isdigit (s ! (i + 1))))
          then sensor_name_loop s (i + 1) (grp @ [char]) words
        else if (isupper char \<or> isdigit char) \<and> islower (char_before s i)
          then sensor_name_loop s (i + 1) [char] (words @ [finish_group grp])
        else sensor_name_loop s (i + 1) (grp @ [char]) words)
     else (grp, words))"
  by pat_completeness auto
termination
  by (relation "measure (\<lambda>(s, i, grp, words). length s - i)") auto

declare sensor_name_loop.simps [simp del]

text \<open>
  \<^verbatim>\<open>get_sensor_name(attr_name)\<close>; the second argument is not used. \<^verbatim>\<open>attr_name[0]\<close>
  raises IndexError on the empty string.
\<close>

definition get_sensor_name :: "string \<Rightarrow> error + string" where
  "get_sensor_name attr_name =
    (let attr_name1 = get_entity_name attr_name in
     if attr_name1 = [] then Inl IndexError
     else
      let attr_name2 = char_upper (hd attr_name1) # tl attr_name1;
          attr_name3 = str_replace CHR ''_'' CHR '' '' attr_name2;
          (grp, words) = sensor_name_loop attr_name3 0 [] [];
          words' = (if length grp > 0 then words @ [finish_group grp] else words)
      in Inr (join '' '' words'))"

section \<open>Catalog, library entity, entities and appliance\<close>

text \<open>
  A catalog item (class \<^verbatim>\<open>ElectroluxDevice\<close> of \<^verbatim>\<open>model.py\<close>) with the attributes the
  code reads. A category is None or a string; the device class, the unit, the entity category
  and the icon are only passed on and are kept as optional names.
\<close>

record ElectroluxDevice =
  category :: "string option"
  capability_info :: json
  device_class :: "string option"
  unit :: "string option"
  entity_category :: "string option"
  entity_icon :: "string option"

text \<open>
  The dictionary \<^verbatim>\<open>Catalog\<close> of \<^verbatim>\<open>const.py\<close> is a parameter of the functions that
  read it. Python does not fix the type of its values, and the code reads a value in two ways:
  \<^verbatim>\<open>setup\<close> and \<^verbatim>\<open>get_entity\<close> read it as one item (\<^verbatim>\<open>item.category\<close>,
  \<^verbatim>\<open>catalog_item.capability_info\<close>), \<^verbatim>\<open>update_missing_entities\<close> iterates over it as a
  list of items. A value is therefore one item or a list of items; an attribute of an item read
  from a list raises AttributeError, and iterating over one item raises TypeError.
\<close>

datatype catalog_value = Device ElectroluxDevice | Devices "ElectroluxDevice list"

type_synonym catalog = "(string \<times> catalog_value) list"

text \<open>\<^verbatim>\<open>if catalog_item:\<close> for the result of \<^verbatim>\<open>Catalog.get(key, None)\<close>.\<close>

fun catalog_truthy :: "catalog_value option \<Rightarrow> bool" where
  "catalog_truthy None = False"
| "catalog_truthy (Some (Device d)) = True"
| "catalog_truthy (Some (Devices ds)) = (ds \<noteq> [])"

text \<open>
  The object \<^verbatim>\<open>data\<close> of class \<^verbatim>\<open>ElectroluxLibraryEntity\<close>, with the attributes that
  the modelled methods read: its name and the capabilities, a dictionary or None.
\<close>

record ElectroluxLibraryEntity =
  lib_name :: string
  capabilities :: "dict option"

text \<open>
  An entity, as the record of the keyword arguments its constructor gets: the classes
  ElectroluxSensor, ElectroluxBinarySensor, ElectroluxSelect, ElectroluxNumber, ElectroluxSwitch
  and ElectroluxButtonEntity differ in \<open>entity_type\<close>, and only a button has a value to send.
  The attributes \<^verbatim>\<open>data\<close> and \<^verbatim>\<open>appliance_status\<close> of \<^verbatim>\<open>entity.py\<close> hold references
  to the library entity and to the state of the appliance; the two flags say whether
  \<^verbatim>\<open>setup(data)\<close> and \<^verbatim>\<open>update(state)\<close> have stored them.
\<close>

record ElectroluxEntity =
  e_name :: string
  entity_type :: entity_kind
  entity_attr :: string
  entity_source :: string
  e_pnc_id :: string
  capability :: json
  e_unit :: "string option"
  e_entity_category :: "string option"
  e_device_class :: "string option"
  e_icon :: "string option"
  val_to_send :: "string option"
  e_data :: bool
  appliance_status :: bool

text \<open>
  The appliance. \<^verbatim>\<open>data\<close> is None until \<^verbatim>\<open>setup\<close>; the attribute \<^verbatim>\<open>entities\<close> does
  not exist until \<^verbatim>\<open>setup\<close> assigns it (\<open>None\<close> here), and the list can hold None where
  \<^verbatim>\<open>get_entity\<close> returned None.
\<close>

record Appliance =
  own_capabilties :: bool
  data :: "ElectroluxLibraryEntity option"
  pnc_id :: string
  state :: json
  entities :: "ElectroluxEntity option list option"

definition CELSIUS :: string where
  "CELSIUS = ''UnitOfTemperature.CELSIUS''"

definition TEMPERATURE :: string where
  "TEMPERATURE = ''SensorDeviceClass.TEMPERATURE''"

text \<open>\<^verbatim>\<open>sources_list\<close>.\<close>

definition sources_list :: "dict option \<Rightarrow> string list option" where
  "sources_list caps =
    (case caps of
       None \<Rightarrow> None
     | Some d \<Rightarrow> Some [key \<leftarrow> map fst d. \<not> startswith key ''applianceCareAndMaintenance''])"

text \<open>
  \<^verbatim>\<open>get_entity_unit\<close> and \<^verbatim>\<open>get_entity_device_class\<close> have the same body but for the
  constant they return for type "temperature".
\<close>

definition temperature_constant :: "string \<Rightarrow> dict option \<Rightarrow> string \<Rightarrow> error + string option" where
  "temperature_constant const caps attr_name =
    (case caps of
       None \<Rightarrow> Inl AttributeError
     | Some d \<Rightarrow>
        (let capability_def = dict_get d attr_name in
         if \<not> truthy capability_def then Inr None
         else (case capability_def of
                 JDict cd \<Rightarrow>
                   (let type_units = dict_get cd ''type'' in
                    if \<not> truthy type_units then Inr None
                    else if type_units = JStr ''temperature'' then Inr (Some const)
                    else Inr None)
               | _ \<Rightarrow> Inl AttributeError)))"

definition get_entity_unit :: "dict option \<Rightarrow> string \<Rightarrow> error + string option" where
  "get_entity_unit = temperature_constant CELSIUS"

definition get_entity_device_class :: "dict option \<Rightarrow> string \<Rightarrow> error + string option" where
  "get_entity_device_class = temperature_constant TEMPERATURE"

text \<open>\<^verbatim>\<open>d[k]\<close> on the capabilities: TypeError on None, KeyError on a missing key.\<close>

definition caps_item :: "dict option \<Rightarrow> string \<Rightarrow> error + json" where
  "caps_item caps k =
    (case caps of
       None \<Rightarrow> Inl TypeError
     | Some d \<Rightarrow> (case map_of d k of None \<Rightarrow> Inl (KeyError k) | Some v \<Rightarrow> Inr v))"

text \<open>\<^verbatim>\<open>self.data.capabilities[k] = v\<close>: TypeError on None.\<close>

definition caps_set :: "dict option \<Rightarrow> string \<Rightarrow> json \<Rightarrow> error + dict option" where
  "caps_set caps k v = (case caps of None \<Rightarrow> Inl TypeError | Some d \<Rightarrow> Inr (Some (dict_set d k v)))"

section \<open>Appliance.get\_entity\<close>

text \<open>
  The entity for a capability, or None when the entity type is none of sensor, binary sensor,
  select, number and switch. The five constructor calls of the source have the same arguments.
  The name is only computed when an entity is built, so \<^verbatim>\<open>get_sensor_name\<close> can only fail
  there.
\<close>

definition get_entity :: "catalog \<Rightarrow> string \<Rightarrow> ElectroluxLibraryEntity \<Rightarrow> string \<Rightarrow> error + ElectroluxEntity option" where
  "get_entity Catalog the_pnc_id the_data capa =
    (case get_entity_type (capabilities the_data) capa of
       Inl e \<Rightarrow> Inl e
     | Inr etype \<Rightarrow>
    (let entity_name = get_entity_name capa;
         categ = get_category capa in
     case caps_item (capabilities the_data) capa of
       Inl e \<Rightarrow> Inl e
     | Inr capability_info0 \<Rightarrow>
    (case get_entity_device_class (capabilities the_data) capa of
       Inl e \<Rightarrow> Inl e
     | Inr device_class0 \<Rightarrow>
    (case get_entity_unit (capabilities the_data) capa of
       Inl e \<Rightarrow> Inl e
     | Inr unit0 \<Rightarrow>
    (let catalog_item = map_of Catalog capa in
     case (if catalog_truthy catalog_item
           then (case catalog_item of
                   Some (Device d) \<Rightarrow>
                     Inr (if capability_info0 = JNull then capability_info d else capability_info0,
                          device_class d, unit d, entity_category d, entity_icon d)
                 | _ \<Rightarrow> Inl AttributeError)
           else Inr (capability_info0, device_class0, unit0, None, None)) of
       Inl e \<Rightarrow> Inl e
     | Inr (capability_info1, device_class1, unit1, entity_category1, entity_icon1) \<Rightarrow>
    (case etype of
       None \<Rightarrow> Inr None
     | Some kind \<Rightarrow>
        if kind \<in> set [SENSOR, BINARY_SENSOR, SELECT, NUMBER, SWITCH]
        then (case get_sensor_name entity_name of
                Inl e \<Rightarrow> Inl e
              | Inr label \<Rightarrow>
                  Inr (Some \<lparr>e_name = lib_name the_data @ '' '' @ label,
                             entity_type = kind,
                             entity_attr = entity_name,
                             entity_source = categ,
                             e_pnc_id = the_pnc_id,
                             capability = capability_info1,
                             e_unit = unit1,
                             e_entity_category = entity_category1,
                             e_device_class = device_class1,
                             e_icon = entity_icon1,
                             val_to_send = None,
                             e_data = False,
                             appliance_status = False\<rparr>))
        else Inr None))))))"

section \<open>Appliance.update\_missing\_entities\<close>

text \<open>\<^verbatim>\<open>if category\<close>: None and the empty string are false.\<close>

fun category_truthy :: "string option \<Rightarrow> bool" where
  "category_truthy None = False"
| "category_truthy (Some c) = (c \<noteq> [])"

text \<open>
  The test on a catalog key that \<^verbatim>\<open>update_missing_entities\<close> and \<^verbatim>\<open>setup\<close> share:
  \<^verbatim>\<open>(category and reported.get(category, None) and reported.get(category, None).get(key))
  or (not category and reported.get(key, None))\<close>.
  With a category, the reported value under the category has to be true and to hold a true
  value under the key; without one, the reported value under the key has to be true.
\<close>

definition reported_has :: "json \<Rightarrow> string option \<Rightarrow> string \<Rightarrow> error + bool" where
  "reported_has reported categ key =
    (if category_truthy categ then
       (case py_get reported (case categ of Some c \<Rightarrow> c | None \<Rightarrow> []) of
          Inl e \<Rightarrow> Inl e
        | Inr container \<Rightarrow>
            if truthy container
            then (case py_get container key of Inl e \<Rightarrow> Inl e | Inr v \<Rightarrow> Inr (truthy v))
            else Inr False)
     else (case py_get reported key of Inl e \<Rightarrow> Inl e | Inr v \<Rightarrow> Inr (truthy v)))"

text \<open>
  The search \<^verbatim>\<open>for entity in self.entities\<close> for an entity with the attribute \<^verbatim>\<open>key\<close>
  and the source \<^verbatim>\<open>category\<close>. The source of an entity is a string, so it is never equal
  to the category None. An entry None of the list has no attribute \<^verbatim>\<open>entity_attr\<close>.
\<close>

fun find_entity :: "ElectroluxEntity option list \<Rightarrow> string \<Rightarrow> string option \<Rightarrow> error + bool" where
  "find_entity [] key categ = Inr False"
| "find_entity (None # es) key categ = Inl AttributeError"
| "find_entity (Some e # es) key categ =
    (if entity_attr e = key \<and> Some (entity_source e) = categ then Inr True
     else find_entity es key categ)"

text \<open>
  The body of the inner loop for one catalog item. The state is the appliance and the local
  variable \<^verbatim>\<open>capability\<close>, which is "" at the start and is assigned only where an entity
  was found. An exception leaves what was assigned before it.
\<close>

definition missing_entity_step ::
  "catalog \<Rightarrow> json \<Rightarrow> string \<Rightarrow> ElectroluxDevice \<Rightarrow> Appliance \<times> string \<Rightarrow> (Appliance \<times> string) \<times> error option" where
  "missing_entity_step Catalog reported key item st =
    (case st of (a, capa) \<Rightarrow>
     case reported_has reported (category item) key of
       Inl e \<Rightarrow> (st, Some e)
     | Inr False \<Rightarrow> (st, None)
     | Inr True \<Rightarrow>
        (case entities a of
           None \<Rightarrow> (st, Some AttributeError)
         | Some es \<Rightarrow>
            (case find_entity es key (category item) of
               Inl e \<Rightarrow> (st, Some e)
             | Inr True \<Rightarrow>
                (let capa' = (case category item of None \<Rightarrow> key | Some c \<Rightarrow> c @ ''/'' @ key) in
                 case data a of
                   None \<Rightarrow> ((a, capa'), Some AttributeError)
                 | Some d \<Rightarrow>
                    (case caps_set (capabilities d) capa' (capability_info item) of
                       Inl e \<Rightarrow> ((a, capa'), Some e)
                     | Inr caps' \<Rightarrow> ((a\<lparr>data := Some (d\<lparr>capabilities := caps'\<rparr>)\<rparr>, capa'), None)))
             | Inr False \<Rightarrow>
                (case data a of
                   None \<Rightarrow> (st, Some AttributeError)
                 | Some d \<Rightarrow>
                    (case get_entity Catalog (pnc_id a) d capa of
                       Inl e \<Rightarrow> (st, Some e)
                     | Inr None \<Rightarrow> (st, None)
                     | Inr (Some entity) \<Rightarrow> ((a\<lparr>entities := Some (es @ [Some entity])\<rparr>, capa), None))))))"

text \<open>\<^verbatim>\<open>for item in items\<close>.\<close>

fun missing_items_loop ::
  "catalog \<Rightarrow> json \<Rightarrow> string \<Rightarrow> ElectroluxDevice list \<Rightarrow> Appliance \<times> string \<Rightarrow> (Appliance \<times> string) \<times> error option" where
  "missing_items_loop Catalog reported key [] st = (st, None)"
| "missing_items_loop Catalog reported key (item # items) st =
    (case missing_entity_step Catalog reported key item st of
       (st', Some e) \<Rightarrow> (st', Some e)
     | (st', None) \<Rightarrow> missing_items_loop Catalog reported key items st')"

text \<open>\<^verbatim>\<open>for key, items in Catalog.items()\<close>; \<open>todo\<close> is the part of the catalog still to visit.\<close>

fun missing_catalog_loop ::
  "catalog \<Rightarrow> json \<Rightarrow> catalog \<Rightarrow> Appliance \<times> string \<Rightarrow> (Appliance \<times> string) \<times> error option" where
  "missing_catalog_loop Catalog reported [] st = (st, None)"
| "missing_catalog_loop Catalog reported ((key, Device d) # todo) st = (st, Some TypeError)"
| "missing_catalog_loop Catalog reported ((key, Devices items) # todo) st =
    (case missing_items_loop Catalog reported key items st of
       (st', Some e) \<Rightarrow> (st', Some e)
     | (st', None) \<Rightarrow> missing_catalog_loop Catalog reported todo st')"

text \<open>
  \<^verbatim>\<open>update_missing_entities\<close>: the appliance after the call and the exception that ended
  it, if any.
\<close>

definition update_missing_entities :: "catalog \<Rightarrow> Appliance \<Rightarrow> Appliance \<times> error option" where
  "update_missing_entities Catalog a =
    (if \<not> own_capabilties a then (a, None)
     else
      case py_get (state a) ''properties'' of
        Inl e \<Rightarrow> (a, Some e)
      | Inr properties \<Rightarrow>
         if truthy properties then
           (case py_get properties ''reported'' of
              Inl e \<Rightarrow> (a, Some e)
            | Inr reported \<Rightarrow>
               if truthy reported then
                 (case missing_catalog_loop Catalog reported Catalog (a, []) of
                    ((a', capa), err) \<Rightarrow> (a', err))
               else (a, None))
         else (a, None))"

section \<open>Appliance.update\_reported\_data\<close>

text \<open>\<^verbatim>\<open>d.update(other)\<close>: the entries of \<open>other\<close> are assigned in their order.\<close>

definition dict_update :: "dict \<Rightarrow> dict \<Rightarrow> dict" where
  "dict_update d other = fold (\<lambda>(k, v) acc. dict_set acc k v) other d"

text \<open>
  \<^verbatim>\<open>for entity in self.entities: entity.update(self.state)\<close>, which stores the state in
  every entity up to the first entry None.
\<close>

fun update_entities :: "ElectroluxEntity option list \<Rightarrow> ElectroluxEntity option list \<times> error option" where
  "update_entities [] = ([], None)"
| "update_entities (None # es) = (None # es, Some AttributeError)"
| "update_entities (Some e # es) =
    (case update_entities es of (es', err) \<Rightarrow> (Some (e\<lparr>appliance_status := True\<rparr>) # es', err))"

text \<open>
  The body of the \<^verbatim>\<open>try\<close> statement. The merge changes the dictionary
  \<^verbatim>\<open>state["properties"]["reported"]\<close> in place; an exception after it leaves the merged
  state.
\<close>

definition update_reported_data_try :: "catalog \<Rightarrow> Appliance \<Rightarrow> dict \<Rightarrow> Appliance \<times> error option" where
  "update_reported_data_try Catalog a reported_data =
    (case state a of
       JDict st \<Rightarrow>
        (case dict_get st ''properties'' of
           JDict properties \<Rightarrow>
            (case dict_get properties ''reported'' of
               JDict local_reported_data \<Rightarrow>
                (let merged = dict_update local_reported_data reported_data;
                     a1 = a\<lparr>state := JDict (dict_set st ''properties''
                                    (JDict (dict_set properties ''reported'' (JDict merged))))\<rparr>
                 in case update_missing_entities Catalog a1 of
                      (a2, Some e) \<Rightarrow> (a2, Some e)
                    | (a2, None) \<Rightarrow>
                       (case entities a2 of
                          None \<Rightarrow> (a2, Some AttributeError)
                        | Some es \<Rightarrow>
                           (case update_entities es of
                              (es', err) \<Rightarrow> (a2\<lparr>entities := Some es'\<rparr>, err))))
             | _ \<Rightarrow> (a, Some AttributeError))
         | _ \<Rightarrow> (a, Some AttributeError))
     | _ \<Rightarrow> (a, Some AttributeError))"

text \<open>
  \<^verbatim>\<open>except Exception\<close> catches every exception that is an instance of Exception; the
  exceptions of the model are.
\<close>

fun is_Exception :: "error \<Rightarrow> bool" where
  "is_Exception AttributeError = True"
| "is_Exception (KeyError k) = True"
| "is_Exception TypeError = True"
| "is_Exception IndexError = True"
| "is_Exception UnboundLocalError = True"

text \<open>
  \<^verbatim>\<open>update_reported_data\<close>: the appliance after the call, and the exception that the call
  lets through to its caller, if any.
\<close>

definition update_reported_data :: "catalog \<Rightarrow> Appliance \<Rightarrow> dict \<Rightarrow> Appliance \<times> error option" where
  "update_reported_data Catalog a reported_data =
    (case update_reported_data_try Catalog a reported_data of
       (a', None) \<Rightarrow> (a', None)
     | (a', Some ex) \<Rightarrow> if is_Exception ex then (a', None) else (a', Some ex))"

section \<open>Appliance.setup\<close>

text \<open>The path of a catalog entry: \<^verbatim>\<open>f"{category}/{key}" if category else key\<close>.\<close>

definition catalog_path :: "string option \<Rightarrow> string \<Rightarrow> string" where
  "catalog_path categ key =
    (if category_truthy categ then (case categ of Some c \<Rightarrow> c | None \<Rightarrow> []) @ ''/'' @ key else key)"

text \<open>
  The loop \<^verbatim>\<open>for key, item in Catalog.items()\<close> that rebuilds the capabilities, with the
  local variables \<^verbatim>\<open>capabilities\<close> and \<^verbatim>\<open>capabilities_names\<close> as state. A catalog value
  that is a list has no attribute \<^verbatim>\<open>category\<close>.
\<close>

fun rebuild_loop :: "json \<Rightarrow> catalog \<Rightarrow> dict \<times> string list \<Rightarrow> error + dict \<times> string list" where
  "rebuild_loop reported [] acc = Inr acc"
| "rebuild_loop reported ((key, Devices ds) # todo) acc = Inl AttributeError"
| "rebuild_loop reported ((key, Device item) # todo) acc =
    (case reported_has reported (category item) key of
       Inl e \<Rightarrow> Inl e
     | Inr present \<Rightarrow>
        if present \<or> key = ''executeCommand'' then
          (let path = catalog_path (category item) key
           in rebuild_loop reported todo
                (dict_set (fst acc) path (capability_info item), snd acc @ [path]))
        else rebuild_loop reported todo acc)"

text \<open>
  The first part of \<^verbatim>\<open>setup\<close>, up to the common entities: the list
  \<^verbatim>\<open>capabilities_names\<close> and the value of \<^verbatim>\<open>self.data.capabilities\<close> after it.
  \<^verbatim>\<open>self.state.get("properties", {})\<close> gives the empty dictionary when the key is missing.
  When nothing is reported the names are the empty list and the capabilities stay None.
\<close>

definition setup_names :: "catalog \<Rightarrow> json \<Rightarrow> dict option \<Rightarrow> error + string list option \<times> dict option" where
  "setup_names Catalog st caps =
    (let capabilities_names = sources_list caps in
     if capabilities_names = None \<and> truthy st then
       (case st of
          JDict d \<Rightarrow>
           (case py_get (case map_of d ''properties'' of None \<Rightarrow> JDict [] | Some p \<Rightarrow> p) ''reported'' of
              Inl e \<Rightarrow> Inl e
            | Inr reported \<Rightarrow>
               if truthy reported then
                 (case rebuild_loop reported Catalog ([], []) of
                    Inl e \<Rightarrow> Inl e
                  | Inr (capabilities', names) \<Rightarrow> Inr (Some names, Some capabilities'))
               else Inr (Some [], caps))
        | _ \<Rightarrow> Inl AttributeError)
     else Inr (capabilities_names, caps))"

text \<open>
  One round of the loop over COMMON_ATTRIBUTES. The state that an exception leaves behind is
  \<^verbatim>\<open>self.data.capabilities\<close>; the local list \<^verbatim>\<open>entities\<close> and the local variable
  \<^verbatim>\<open>catalog_item\<close> (\<open>None\<close> while it is unbound) go on to the next round. The entity is
  appended also when \<^verbatim>\<open>get_entity\<close> returned None.
\<close>

definition common_step ::
  "catalog \<Rightarrow> string \<Rightarrow> string \<Rightarrow> string list option \<Rightarrow> string
   \<Rightarrow> dict option \<Rightarrow> ElectroluxEntity option list \<times> catalog_value option option
   \<Rightarrow> dict option \<times> (error + ElectroluxEntity option list \<times> catalog_value option option)" where
  "common_step Catalog the_pnc_id the_name names common_attribute caps loc =
    (let entity_name = get_entity_name common_attribute;
         categ = get_category common_attribute in
     case names of
       None \<Rightarrow> (caps, Inl TypeError)
     | Some ns \<Rightarrow>
        if list_ex (\<lambda>capa. get_entity_name capa = entity_name \<and> get_category capa = categ) ns
        then (caps, Inr loc)
        else
         (let catalog_item = map_of Catalog entity_name in
          if catalog_truthy catalog_item then
            (case catalog_item of
               Some (Device d) \<Rightarrow>
                (case caps_set caps common_attribute (capability_info d) of
                   Inl e \<Rightarrow> (caps, Inl e)
                 | Inr caps' \<Rightarrow>
                    (case get_entity Catalog the_pnc_id
                            \<lparr>lib_name = the_name, capabilities = caps'\<rparr> common_attribute of
                       Inl e \<Rightarrow> (caps', Inl e)
                     | Inr entity \<Rightarrow> (caps', Inr (fst loc @ [entity], Some catalog_item))))
             | _ \<Rightarrow> (caps, Inl AttributeError))
          else (caps, Inr (fst loc, Some catalog_item))))"

fun common_loop ::
  "catalog \<Rightarrow> string \<Rightarrow> string \<Rightarrow> string list option \<Rightarrow> string list
   \<Rightarrow> dict option \<Rightarrow> ElectroluxEntity option list \<times> catalog_value option option
   \<Rightarrow> dict option \<times> (error + ElectroluxEntity option list \<times> catalog_value option option)" where
  "common_loop Catalog the_pnc_id the_name names [] caps loc = (caps, Inr loc)"
| "common_loop Catalog the_pnc_id the_name names (common_attribute # todo) caps loc =
    (case common_step Catalog the_pnc_id the_name names common_attribute caps loc of
       (caps', Inl e) \<Rightarrow> (caps', Inl e)
     | (caps', Inr loc') \<Rightarrow> common_loop Catalog the_pnc_id the_name names todo caps' loc')"

text \<open>
  \<^verbatim>\<open>for key, item in catalog_item.capability_info.items(): if capability_info.get(key, None)
  is None: capability_info[key] = item\<close>.
\<close>

definition merge_info :: "dict \<Rightarrow> dict \<Rightarrow> dict" where
  "merge_info capa_info catalog_info =
    fold (\<lambda>(key, item) acc. if dict_get acc key = JNull then dict_set acc key item else acc)
      catalog_info capa_info"

text \<open>
  The block under \<^verbatim>\<open>if catalog_item:\<close> in the loop over the capabilities. The variable
  is the one that the loop over COMMON_ATTRIBUTES left; reading it unbound raises
  UnboundLocalError. The merge changes the dictionary of the capability in place, which is
  \<^verbatim>\<open>self.data.capabilities[capability]\<close>. The result is the capabilities, and the local
  \<^verbatim>\<open>capability_info\<close> and \<^verbatim>\<open>device_class\<close>.
\<close>

definition richer_catalog ::
  "catalog_value option option \<Rightarrow> dict option \<Rightarrow> string \<Rightarrow> json
   \<Rightarrow> dict option \<times> (error + json \<times> string option)" where
  "richer_catalog catalog_item caps capa capability_info0 =
    (case catalog_item of
       None \<Rightarrow> (caps, Inl UnboundLocalError)
     | Some ci \<Rightarrow>
        if catalog_truthy ci then
          (case ci of
             Some (Device d) \<Rightarrow>
              if capability_info0 = JNull then (caps, Inr (capability_info d, device_class d))
              else if truthy (capability_info d) then
                (case capability_info d of
                   JDict catalog_info \<Rightarrow>
                    (case capability_info0 of
                       JDict capa_info \<Rightarrow>
                        (let merged = JDict (merge_info capa_info catalog_info)
                         in (map_option (\<lambda>c. dict_set c capa merged) caps,
                             Inr (merged, device_class d)))
                     | _ \<Rightarrow> (caps, Inl AttributeError))
                 | _ \<Rightarrow> (caps, Inl AttributeError))
              else (caps, Inr (capability_info0, device_class d))
           | _ \<Rightarrow> (caps, Inl AttributeError))
        else (caps, Inr (capability_info0, None)))"

text \<open>
  The buttons of "executeCommand", one for each key of \<^verbatim>\<open>capability_info["values"]\<close>.
  The dictionary \<^verbatim>\<open>icon_mapping\<close> of \<^verbatim>\<open>const.py\<close> is a parameter.
\<close>

fun command_buttons ::
  "(string \<times> string) list \<Rightarrow> string \<Rightarrow> string \<Rightarrow> string \<Rightarrow> string \<Rightarrow> json \<Rightarrow> string option
   \<Rightarrow> string list \<Rightarrow> error + ElectroluxEntity option list" where
  "command_buttons icon_mapping the_pnc_id the_name entity_name categ capability_info1 device_class1 [] = Inr []"
| "command_buttons icon_mapping the_pnc_id the_name entity_name categ capability_info1 device_class1 (command # todo) =
    (case get_sensor_name command of
       Inl e \<Rightarrow> Inl e
     | Inr label \<Rightarrow>
        (case command_buttons icon_mapping the_pnc_id the_name entity_name categ capability_info1 device_class1 todo of
           Inl e \<Rightarrow> Inl e
         | Inr buttons \<Rightarrow>
            Inr (Some \<lparr>e_name = the_name @ '' '' @ label,
                       entity_type = BUTTON,
                       entity_attr = entity_name,
                       entity_source = categ,
                       e_pnc_id = the_pnc_id,
                       capability = capability_info1,
                       e_unit = None,
                       e_entity_category = None,
                       e_device_class = device_class1,
                       e_icon = Some (case map_of icon_mapping command of
                                        None \<Rightarrow> ''mdi:gesture-tap-button'' | Some i \<Rightarrow> i),
                       val_to_send = Some command,
                       e_data = False,
                       appliance_status = False\<rparr> # buttons)))"

text \<open>\<^verbatim>\<open>capability_info["values"]\<close>, and \<^verbatim>\<open>list(commands.keys())\<close>.\<close>

definition command_keys :: "json \<Rightarrow> error + string list" where
  "command_keys capability_info1 =
    (case capability_info1 of
       JDict ci \<Rightarrow>
        (case map_of ci ''values'' of
           None \<Rightarrow> Inl (KeyError ''values'')
         | Some (JDict commands) \<Rightarrow> Inr (map fst commands)
         | Some _ \<Rightarrow> Inl AttributeError)
     | _ \<Rightarrow> Inl TypeError)"

text \<open>One round of the loop \<^verbatim>\<open>for capability in capabilities_names\<close>.\<close>

definition capability_step ::
  "catalog \<Rightarrow> (string \<times> string) list \<Rightarrow> string \<Rightarrow> string \<Rightarrow> catalog_value option option \<Rightarrow> string
   \<Rightarrow> dict option \<Rightarrow> ElectroluxEntity option list
   \<Rightarrow> dict option \<times> (error + ElectroluxEntity option list)" where
  "capability_step Catalog icon_mapping the_pnc_id the_name catalog_item capa caps ents =
    (case caps_item caps capa of
       Inl e \<Rightarrow> (caps, Inl e)
     | Inr capability_info0 \<Rightarrow>
        (let entity_name = get_entity_name capa;
             categ = get_category capa in
         case richer_catalog catalog_item caps capa capability_info0 of
           (caps', Inl e) \<Rightarrow> (caps', Inl e)
         | (caps', Inr (capability_info1, device_class1)) \<Rightarrow>
            if capa = ''executeCommand'' then
              (case command_keys capability_info1 of
                 Inl e \<Rightarrow> (caps', Inl e)
               | Inr commands_keys \<Rightarrow>
                  (case command_buttons icon_mapping the_pnc_id the_name entity_name categ
                          capability_info1 device_class1 commands_keys of
                     Inl e \<Rightarrow> (caps', Inl e)
                   | Inr buttons \<Rightarrow> (caps', Inr (ents @ buttons))))
            else
              (case get_entity Catalog the_pnc_id \<lparr>lib_name = the_name, capabilities = caps'\<rparr> capa of
                 Inl e \<Rightarrow> (caps', Inl e)
               | Inr None \<Rightarrow> (caps', Inr ents)
               | Inr (Some entity) \<Rightarrow> (caps', Inr (ents @ [Some entity])))))"

fun capability_loop ::
  "catalog \<Rightarrow> (string \<times> string) list \<Rightarrow> string \<Rightarrow> string \<Rightarrow> catalog_value option option \<Rightarrow> string list
   \<Rightarrow> dict option \<Rightarrow> ElectroluxEntity option list
   \<Rightarrow> dict option \<times> (error + ElectroluxEntity option list)" where
  "capability_loop Catalog icon_mapping the_pnc_id the_name catalog_item [] caps ents = (caps, Inr ents)"
| "capability_loop Catalog icon_mapping the_pnc_id the_name catalog_item (capa # todo) caps ents =
    (case capability_step Catalog icon_mapping the_pnc_id the_name catalog_item capa caps ents of
       (caps', Inl e) \<Rightarrow> (caps', Inl e)
     | (caps', Inr ents') \<Rightarrow>
         capability_loop Catalog icon_mapping the_pnc_id the_name catalog_item todo caps' ents')"

text \<open>\<^verbatim>\<open>for entity in entities: entity.setup(data)\<close>, up to the first entry None.\<close>

fun setup_entities :: "ElectroluxEntity option list \<Rightarrow> ElectroluxEntity option list \<times> error option" where
  "setup_entities [] = ([], None)"
| "setup_entities (None # es) = (None # es, Some AttributeError)"
| "setup_entities (Some e # es) =
    (case setup_entities es of (es', err) \<Rightarrow> (Some (e\<lparr>e_data := True\<rparr>) # es', err))"

text \<open>
  \<^verbatim>\<open>Appliance.setup(data)\<close>, with the constants \<^verbatim>\<open>Catalog\<close>, \<^verbatim>\<open>COMMON_ATTRIBUTES\<close> and
  \<^verbatim>\<open>icon_mapping\<close> of \<^verbatim>\<open>const.py\<close> as parameters: the appliance after the call and the
  exception that ended it, if any. \<^verbatim>\<open>self.entities\<close> is the empty list until the two loops are
  through.
\<close>

definition Appliance_setup ::
  "catalog \<Rightarrow> string list \<Rightarrow> (string \<times> string) list \<Rightarrow> Appliance \<Rightarrow> ElectroluxLibraryEntity
   \<Rightarrow> Appliance \<times> error option" where
  "Appliance_setup Catalog COMMON_ATTRIBUTES icon_mapping a the_data =
    (let a0 = a\<lparr>data := Some the_data, entities := Some []\<rparr> in
     case setup_names Catalog (state a) (capabilities the_data) of
       Inl e \<Rightarrow> (a0, Some e)
     | Inr (capabilities_names, caps0) \<Rightarrow>
        (case common_loop Catalog (pnc_id a) (lib_name the_data) capabilities_names
                COMMON_ATTRIBUTES caps0 ([], None) of
           (caps1, Inl e) \<Rightarrow> (a0\<lparr>data := Some (the_data\<lparr>capabilities := caps1\<rparr>)\<rparr>, Some e)
         | (caps1, Inr (ents1, catalog_item)) \<Rightarrow>
            (case capabilities_names of
               None \<Rightarrow> (a0\<lparr>data := Some (the_data\<lparr>capabilities := caps1\<rparr>)\<rparr>, Some TypeError)
             | Some names \<Rightarrow>
                (case capability_loop Catalog icon_mapping (pnc_id a) (lib_name the_data)
                        catalog_item names caps1 ents1 of
                   (caps2, Inl e) \<Rightarrow> (a0\<lparr>data := Some (the_data\<lparr>capabilities := caps2\<rparr>)\<rparr>, Some e)
                 | (caps2, Inr ents2) \<Rightarrow>
                    (case setup_entities ents2 of
                       (ents3, err) \<Rightarrow>
                         (a0\<lparr>data := Some (the_data\<lparr>capabilities := caps2\<rparr>),
                            entities := Some ents3\<rparr>, err))))))"

text \<open>
  An entity is built for a capability path when its attribute and its source are the name and
  the category of the path.
\<close>

definition built_for :: "string \<Rightarrow> ElectroluxEntity \<Rightarrow> bool" where
  "built_for capa e = (entity_attr e = get_entity_name capa \<and> entity_source e = get_category capa)"

text \<open>
  A catalog key counts as reported when its value in the reported state is true: under the
  category when the entry has one, at top level otherwise.
\<close>

definition reported_true :: "dict \<Rightarrow> string option \<Rightarrow> string \<Rightarrow> bool" where
  "reported_true reported categ key =
    (if category_truthy categ
     then (case dict_get reported (case categ of Some c \<Rightarrow> c | None \<Rightarrow> []) of
             JDict container \<Rightarrow> container \<noteq> [] \<and> truthy (dict_get container key)
           | _ \<Rightarrow> False)
     else truthy (dict_get reported key))"

text \<open>The catalog entries that the rebuilt capabilities come from.\<close>

definition rebuilt_from :: "dict \<Rightarrow> string \<times> ElectroluxDevice \<Rightarrow> bool" where
  "rebuilt_from reported entry =
    (reported_true reported (category (snd entry)) (fst entry) \<or> fst entry = ''executeCommand'')"

text \<open>
  The reported state is well formed for a catalog when every true value that it has under a
  category of the catalog is a dictionary, so that the lookup of a key in it raises nothing.
\<close>

definition containers_are_dicts :: "dict \<Rightarrow> (string \<times> ElectroluxDevice) list \<Rightarrow> bool" where
  "containers_are_dicts reported items =
    list_all (\<lambda>entry. case category (snd entry) of
                         None \<Rightarrow> True
                       | Some c \<Rightarrow> c = [] \<or> \<not> truthy (dict_get reported c) \<or> is_dict (dict_get reported c))
      items"

text \<open>The paths of the catalog entries that are single items.\<close>

definition catalog_paths :: "catalog \<Rightarrow> string list" where
  "catalog_paths Catalog =
    concat (map (\<lambda>(key, v). case v of Device item \<Rightarrow> [catalog_path (category item) key]
                                     | Devices items \<Rightarrow> [])
                Catalog)"

text \<open>The entities of an appliance, none while the attribute does not exist.\<close>

definition entity_list :: "Appliance \<Rightarrow> ElectroluxEntity option list" where
  "entity_list a = (case entities a of None \<Rightarrow> [] | Some es \<Rightarrow> es)"

section \<open>The display label, as a function of the identifier\<close>

text \<open>
  The groups of a name: a new group starts at every capital or digit that directly follows a
  lower-case letter. \<open>groups_from grp prev rest\<close> continues the group \<open>grp\<close>, whose last
  character is \<open>prev\<close>, through \<open>rest\<close>.
\<close>

fun groups_from :: "string \<Rightarrow> char \<Rightarrow> string \<Rightarrow> string list" where
  "groups_from grp prev [] = [grp]"
| "groups_from grp prev (c # cs) =
    (if islower prev \<and> (isupper c \<or> isdigit c) then grp # groups_from [c] c cs
     else groups_from (grp @ [c]) c cs)"

definition split_groups :: "string \<Rightarrow> string list" where
  "split_groups s = (case s of [] \<Rightarrow> [] | c # cs \<Rightarrow> groups_from [c] c cs)"

text \<open>
  A group that consists only of capitals and digits is kept as it is, every other group is
  put in lower case.
\<close>

definition label_group :: "string \<Rightarrow> string" where
  "label_group grp = (if (\<forall>c \<in> set grp. isupper c \<or> isdigit c) then grp else str_lower grp)"

definition label_of :: "string \<Rightarrow> string" where
  "label_of s = join '' '' (map label_group (split_groups s))"

text \<open>
  The label as the specification words it: drop everything up to and including the last "/",
  split the remainder into groups, lower-case the mixed groups, keep the groups of capitals and
  digits, join with single spaces.
\<close>

definition sensor_name_spec :: "string \<Rightarrow> string" where
  "sensor_name_spec attr_name = label_of (snd (snd (rpartition attr_name CHR ''/'')))"

text \<open>
  The label with what the code does before it splits: the text after the last "/" (the whole
  identifier when that text is empty), with its first character in upper case.
\<close>

definition capitalize_first :: "string \<Rightarrow> string" where
  "capitalize_first s = (case s of [] \<Rightarrow> [] | c # cs \<Rightarrow> char_upper c # cs)"

definition sensor_name_label :: "string \<Rightarrow> string" where
  "sensor_name_label attr_name = label_of (capitalize_first (get_entity_name attr_name))"

text \<open>The characters of an identifier: ASCII, and no space, underscore or newline.\<close>

definition plain_char :: "char \<Rightarrow> bool" where
  "plain_char c = (ascii c \<and> c \<noteq> CHR '' '' \<and> c \<noteq> CHR ''_'' \<and> c \<noteq> CHR 0x0A)"

section \<open>The decision table of get\_entity\_type\<close>

text \<open>
  C1. A capability definition of type "boolean" with access "readwrite" whose "values" entry is
  present and not None is a switch, whatever the values are: the exception is tested before the
  select rule, so it wins also when the values are a non-empty dictionary.
\<close>

theorem switch_exception_first:
  assumes "dict_get caps attr_name = JDict cd"
    and "dict_get cd ''type'' = JStr ''boolean''"
    and "dict_get cd ''access'' = JStr ''readwrite''"
    and "dict_get cd ''values'' \<noteq> JNull"
  shows "get_entity_type (Some caps) attr_name = Inr (Some SWITCH)"
proof -
  from assms(2) have "cd \<noteq> []"
    by (auto simp: dict_get_def)
  with assms show ?thesis
    by (simp add: get_entity_type_def entity_type_of_def_def)
qed

theorem switch_exception_first_witness:
  "dict_get [(''cavityLight'', JDict [(''type'', JStr ''boolean''), (''access'', JStr ''readwrite''),
        (''values'', JDict [(''ON'', JDict []), (''OFF'', JDict [])])])] ''cavityLight''
     = JDict [(''type'', JStr ''boolean''), (''access'', JStr ''readwrite''),
        (''values'', JDict [(''ON'', JDict []), (''OFF'', JDict [])])]
   \<and> get_entity_type
       (Some [(''cavityLight'', JDict [(''type'', JStr ''boolean''), (''access'', JStr ''readwrite''),
          (''values'', JDict [(''ON'', JDict []), (''OFF'', JDict [])])])]) ''cavityLight''
     = Inr (Some SWITCH)"
  using switch_exception_first
    [of "[(''cavityLight'', JDict [(''type'', JStr ''boolean''), (''access'', JStr ''readwrite''),
          (''values'', JDict [(''ON'', JDict []), (''OFF'', JDict [])])])]" "''cavityLight''"
        "[(''type'', JStr ''boolean''), (''access'', JStr ''readwrite''),
          (''values'', JDict [(''ON'', JDict []), (''OFF'', JDict [])])]"]
  by (simp add: dict_get_def)

text \<open>
  C2 as stated fails: a capability whose access is "readwrite" and whose "values" entry is a
  non-empty dictionary maps to select although it has a "min" entry, when its type is not "number".
\<close>

theorem select_with_min_counterexample:
  "get_entity_type
     (Some [(''fanSpeed'', JDict [(''type'', JStr ''string''), (''access'', JStr ''readwrite''),
        (''min'', JInt 1),
        (''values'', JDict [(''LOW'', JDict []), (''HIGH'', JDict [])])])]) ''fanSpeed''
   = Inr (Some SELECT)"
  by (simp add: get_entity_type_def entity_type_of_def_def dict_get_def)

text \<open>
  C2, amended. For a capability definition that is not the boolean switch exception, whose access
  is "readwrite" and whose "values" entry is a non-empty dictionary, the result is select exactly
  when the definition has a type (a "type" entry that is true: not None, not empty) and either
  the type is not "number" or the "min" entry is absent (None). A definition without a type has
  no entity. Only type "number" with a "min" entry is kept from select; it goes on to the type
  rules and becomes a number.
\<close>

theorem select_rule:
  assumes "dict_get caps attr_name = JDict cd"
    and "dict_get cd ''type'' \<noteq> JStr ''boolean''"
    and "dict_get cd ''access'' = JStr ''readwrite''"
    and "dict_get cd ''values'' = JDict vs" and "vs \<noteq> []"
  shows "(get_entity_type (Some caps) attr_name = Inr (Some SELECT)
            \<longleftrightarrow> truthy (dict_get cd ''type'')
                \<and> (dict_get cd ''type'' \<noteq> JStr ''number'' \<or> dict_get cd ''min'' = JNull))
       \<and> (\<not> truthy (dict_get cd ''type'')
            \<longrightarrow> get_entity_type (Some caps) attr_name = Inr None)
       \<and> (dict_get cd ''type'' = JStr ''number'' \<and> dict_get cd ''min'' \<noteq> JNull
            \<longrightarrow> get_entity_type (Some caps) attr_name = Inr (Some NUMBER))"
proof -
  from assms(3) have "cd \<noteq> []"
    by (auto simp: dict_get_def)
  with assms show ?thesis
    by (auto simp: get_entity_type_def entity_type_of_def_def Let_def)
qed

theorem select_rule_witness:
  "get_entity_type
     (Some [(''startTime'', JDict [(''type'', JStr ''number''), (''access'', JStr ''readwrite''),
        (''min'', JInt 0),
        (''values'', JDict [(''INVALID_OR_NOT_SET_TIME'', JDict [])])])]) ''startTime''
   = Inr (Some NUMBER)
   \<and> get_entity_type
     (Some [(''program'', JDict [(''access'', JStr ''readwrite''),
        (''values'', JDict [(''ECO'', JDict [])])])]) ''program''
   = Inr None
   \<and> get_entity_type
     (Some [(''program'', JDict [(''type'', JStr ''string''), (''access'', JStr ''readwrite''),
        (''values'', JDict [(''ECO'', JDict [])])])]) ''program''
   = Inr (Some SELECT)"
  using select_rule
    [of "[(''startTime'', JDict [(''type'', JStr ''number''), (''access'', JStr ''readwrite''),
        (''min'', JInt 0),
        (''values'', JDict [(''INVALID_OR_NOT_SET_TIME'', JDict [])])])]" "''startTime''"
        "[(''type'', JStr ''number''), (''access'', JStr ''readwrite''),
        (''min'', JInt 0),
        (''values'', JDict [(''INVALID_OR_NOT_SET_TIME'', JDict [])])]"
        "[(''INVALID_OR_NOT_SET_TIME'', JDict [])]"]
    select_rule
    [of "[(''program'', JDict [(''access'', JStr ''readwrite''),
        (''values'', JDict [(''ECO'', JDict [])])])]" "''program''"
        "[(''access'', JStr ''readwrite''), (''values'', JDict [(''ECO'', JDict [])])]"
        "[(''ECO'', JDict [])]"]
    select_rule
    [of "[(''program'', JDict [(''type'', JStr ''string''), (''access'', JStr ''readwrite''),
        (''values'', JDict [(''ECO'', JDict [])])])]" "''program''"
        "[(''type'', JStr ''string''), (''access'', JStr ''readwrite''),
         (''values'', JDict [(''ECO'', JDict [])])]"
        "[(''ECO'', JDict [])]"]
  by (simp add: dict_get_def)

text \<open>
  C3. A capability definition with a type and an access that neither the switch exception nor
  the select rule has claimed gets the entity kind of the first row of the decision table that
  applies to it: boolean/read is a binary sensor, boolean/readwrite a switch, temperature/read a
  sensor, temperature/readwrite a number, number, int and string with read a sensor, int and
  number with readwrite and no values a number.
\<close>

theorem decision_table_followed:
  assumes "dict_get caps attr_name = JDict cd"
    and "dict_get cd ''type'' = JStr t" and "dict_get cd ''access'' = JStr a"
    and "\<not> (t = ''boolean'' \<and> a = ''readwrite'' \<and> dict_get cd ''values'' \<noteq> JNull)"
    and "\<not> (truthy (dict_get cd ''values'') \<and> a = ''readwrite'' \<and> is_dict (dict_get cd ''values'')
            \<and> py_len (dict_get cd ''values'') > 0
            \<and> (t \<noteq> ''number'' \<or> dict_get cd ''min'' = JNull))"
    and "decision_table t a (dict_get cd ''values'' \<noteq> JNull) = Some kind"
  shows "get_entity_type (Some caps) attr_name = Inr (Some kind)"
proof -
  from assms(2) have cd: "cd \<noteq> []"
    by (auto simp: dict_get_def)
  from assms(6) have ta: "t \<noteq> [] \<and> a \<noteq> []"
    by (auto simp: decision_table_def decision_rows_def row_applies_def split: if_splits)
  have "entity_type_of_def cd = Some kind"
    using assms(2-6) ta
    by (auto simp: entity_type_of_def_def decision_table_def decision_rows_def row_applies_def
             split: if_splits)
  with assms(1) cd show ?thesis
    by (simp add: get_entity_type_def)
qed

theorem decision_table_followed_witness:
  "get_entity_type (Some [(''doorState'', JDict [(''access'', JStr ''read''), (''type'', JStr ''boolean'')])])
      ''doorState'' = Inr (Some BINARY_SENSOR)
   \<and> get_entity_type (Some [(''targetTemperatureC'', JDict [(''access'', JStr ''readwrite''),
        (''type'', JStr ''temperature''), (''min'', JInt 30), (''max'', JInt 230)])])
      ''targetTemperatureC'' = Inr (Some NUMBER)"
  using decision_table_followed
    [of "[(''doorState'', JDict [(''access'', JStr ''read''), (''type'', JStr ''boolean'')])]"
        "''doorState''" "[(''access'', JStr ''read''), (''type'', JStr ''boolean'')]"
        "''boolean''" "''read''" BINARY_SENSOR]
    decision_table_followed
    [of "[(''targetTemperatureC'', JDict [(''access'', JStr ''readwrite''),
        (''type'', JStr ''temperature''), (''min'', JInt 30), (''max'', JInt 230)])]"
        "''targetTemperatureC''" "[(''access'', JStr ''readwrite''),
        (''type'', JStr ''temperature''), (''min'', JInt 30), (''max'', JInt 230)]"
        "''temperature''" "''readwrite''" NUMBER]
  by (simp add: dict_get_def decision_table_def decision_rows_def row_applies_def)

text \<open>
  The results None of \<^verbatim>\<open>get_entity_type\<close>: for an attribute that the capabilities do not
  have, for a definition without a type or without an access, and for type "string" with access
  "readwrite" and no values.
\<close>

lemma no_entity_cases:
  "map_of caps attr_name = None \<Longrightarrow> get_entity_type (Some caps) attr_name = Inr None"
  "dict_get caps attr_name = JDict cd \<Longrightarrow> \<not> truthy (dict_get cd ''type'')
     \<Longrightarrow> get_entity_type (Some caps) attr_name = Inr None"
  "dict_get caps attr_name = JDict cd \<Longrightarrow> \<not> truthy (dict_get cd ''access'')
     \<Longrightarrow> get_entity_type (Some caps) attr_name = Inr None"
  "dict_get caps attr_name = JDict cd \<Longrightarrow> dict_get cd ''type'' = JStr ''string''
     \<Longrightarrow> dict_get cd ''access'' = JStr ''readwrite'' \<Longrightarrow> dict_get cd ''values'' = JNull
     \<Longrightarrow> get_entity_type (Some caps) attr_name = Inr None"
  by (auto simp: get_entity_type_def entity_type_of_def_def dict_get_def Let_def)

text \<open>
  C9 fails on the code: type "int" with access "write" is outside the decision table, and the
  last test of the \<^verbatim>\<open>match\<close> statement does not look at the access, so the result is
  the number kind and not None.
\<close>

theorem int_write_is_number:
  "get_entity_type (Some [(''waterHardness'', JDict [(''access'', JStr ''write''), (''type'', JStr ''int'')])])
      ''waterHardness'' = Inr (Some NUMBER)
   \<and> decision_table ''int'' ''write'' False = None"
  by (simp add: get_entity_type_def entity_type_of_def_def dict_get_def
        decision_table_def decision_rows_def row_applies_def)

section \<open>The display label of get\_sensor\_name\<close>

text \<open>Facts about the character tests and the groups.\<close>

lemma islower_not_caps: "islower c \<Longrightarrow> \<not> isupper c \<and> \<not> isdigit c"
  by (auto simp: islower_def isupper_def isdigit_def lower_letters_def upper_letters_def)

lemma groups_from_nonempty: "groups_from grp prev cs \<noteq> []"
  by (induction cs arbitrary: grp prev) auto

lemma concat_groups_from: "concat (groups_from grp prev cs) = grp @ cs"
  by (induction cs arbitrary: grp prev) auto

lemma groups_from_no_empty: "grp \<noteq> [] \<Longrightarrow> [] \<notin> set (groups_from grp prev cs)"
  by (induction cs arbitrary: grp prev) auto

lemma loop_groups:
  "n = length s - i \<Longrightarrow> 0 < i \<Longrightarrow> i \<le> length s \<Longrightarrow> grp \<noteq> [] \<Longrightarrow> CHR '' '' \<notin> set (drop i s)
   \<Longrightarrow> sensor_name_loop s i grp words
       = (last (groups_from grp (s ! (i - 1)) (drop i s)),
          words @ map finish_group (butlast (groups_from grp (s ! (i - 1)) (drop i s))))"
proof (induction n arbitrary: i grp words)
  case 0
  then have "drop i s = []" by simp
  moreover have "sensor_name_loop s i grp words = (grp, words)"
    using 0 by (simp add: sensor_name_loop.simps)
  ultimately show ?case by simp
next
  case (Suc n)
  then have i: "i < length s" by simp
  then have d: "drop i s = s ! i # drop (Suc i) s"
    by (simp add: Cons_nth_drop_Suc)
  have nsp: "s ! i \<noteq> CHR '' ''" and rest: "CHR '' '' \<notin> set (drop (Suc i) s)"
    using Suc.prems(5) d by auto
  have cb: "char_before s i = s ! (i - 1)"
    using Suc.prems(2) by (simp add: char_before_def)
  have IH: "\<And>g w. g \<noteq> [] \<Longrightarrow> sensor_name_loop s (Suc i) g w
       = (last (groups_from g (s ! i) (drop (Suc i) s)),
          w @ map finish_group (butlast (groups_from g (s ! i) (drop (Suc i) s))))"
    using Suc.IH[of "Suc i"] Suc.prems i rest by simp
  show ?case
    apply (subst sensor_name_loop.simps)
    using i nsp cb Suc.prems(4) IH islower_not_caps[of "s ! (i - 1)"] groups_from_nonempty
    by (auto simp: d Let_def)
qed

lemma finish_group_label: "grp \<noteq> [] \<Longrightarrow> CHR 0x0A \<notin> set grp \<Longrightarrow> finish_group grp = label_group grp"
proof -
  assume g: "grp \<noteq> []" and n: "CHR 0x0A \<notin> set grp"
  then have "last grp \<noteq> CHR 0x0A"
    using last_in_set by metis
  with g show ?thesis
    by (simp add: finish_group_def label_group_def re_match_caps_def)
qed

lemma char_upper_cases: "char_upper c = c \<or> char_upper c \<in> set upper_letters"
proof (cases "map_of (zip lower_letters upper_letters) c")
  case None then show ?thesis by (simp add: char_upper_def)
next
  case (Some u)
  then have "u \<in> set upper_letters" by (meson map_of_SomeD set_zip_rightD)
  with Some show ?thesis by (simp add: char_upper_def)
qed

lemma upper_letters_plain: "u \<in> set upper_letters \<Longrightarrow> u \<noteq> CHR '' '' \<and> u \<noteq> CHR ''_'' \<and> u \<noteq> CHR 0x0A"
  by (auto simp: upper_letters_def)

lemma char_upper_plain: "plain_char c \<Longrightarrow> char_upper c \<noteq> CHR '' '' \<and> char_upper c \<noteq> CHR ''_'' \<and> char_upper c \<noteq> CHR 0x0A"
  using char_upper_cases[of c] upper_letters_plain[of "char_upper c"] by (auto simp: plain_char_def)

lemma str_replace_absent: "a \<notin> set s \<Longrightarrow> str_replace a b s = s"
  by (induction s) (auto simp: str_replace_def)

lemma get_entity_name_nonempty: "attr_name \<noteq> [] \<Longrightarrow> get_entity_name attr_name \<noteq> []"
  by (simp add: get_entity_name_def Let_def)

lemma map_finish_groups:
  assumes "grp \<noteq> []" and "CHR 0x0A \<notin> set (grp @ cs)"
  shows "map finish_group (groups_from grp prev cs) = map label_group (groups_from grp prev cs)"
proof (rule map_cong[OF refl])
  fix g assume g: "g \<in> set (groups_from grp prev cs)"
  then have "g \<noteq> []" using groups_from_no_empty[OF assms(1)] by metis
  moreover have "set g \<subseteq> set (concat (groups_from grp prev cs))" using g by auto
  then have "CHR 0x0A \<notin> set g" using assms(2) by (auto simp: concat_groups_from)
  ultimately show "finish_group g = label_group g" by (rule finish_group_label)
qed

text \<open>
  C4 as stated fails: the code puts the first character of the remainder in upper case before
  it splits, so the identifier "pH" has no change from a lower-case letter to a capital
  any more and comes out as the single group "PH", where the rule of the specification
  gives "p H".
\<close>

theorem sensor_name_counterexample:
  "get_sensor_name ''pH'' = Inr ''PH'' \<and> sensor_name_spec ''pH'' = ''p H''
   \<and> get_sensor_name ''pH'' \<noteq> Inr (sensor_name_spec ''pH'')"
  by code_simp

text \<open>
  C4, amended. For every non-empty identifier whose text after the last "/" (the whole identifier
  when that text is empty) consists of ASCII characters other than space, underscore and newline,
  \<^verbatim>\<open>get_sensor_name\<close> returns the label of that text with its first character in upper
  case: split before every capital or digit that directly follows a lower-case letter, groups
  of capitals and digits kept, every other group in lower case, groups joined with one space.
\<close>

theorem sensor_name_is_label:
  assumes "attr_name \<noteq> []" and "\<forall>c \<in> set (get_entity_name attr_name). plain_char c"
  shows "get_sensor_name attr_name = Inr (sensor_name_label attr_name)"
proof -
  obtain c cs where n: "get_entity_name attr_name = c # cs"
    using get_entity_name_nonempty[OF assms(1)] by (cases "get_entity_name attr_name") auto
  define s where "s = char_upper c # cs"
  have pc: "plain_char c" and pcs: "\<forall>x \<in> set cs. plain_char x"
    using assms(2) n by auto
  have sep: "\<And>x. x \<in> set s \<Longrightarrow> x \<noteq> CHR '' '' \<and> x \<noteq> CHR ''_'' \<and> x \<noteq> CHR 0x0A"
  proof -
    fix x assume "x \<in> set s"
    then consider "x = char_upper c" | "x \<in> set cs" by (auto simp: s_def)
    then show "x \<noteq> CHR '' '' \<and> x \<noteq> CHR ''_'' \<and> x \<noteq> CHR 0x0A"
    proof cases
      case 1 then show ?thesis using char_upper_plain[OF pc] by simp
    next
      case 2 then have "plain_char x" using pcs by blast
      then show ?thesis by (simp add: plain_char_def)
    qed
  qed
  have s_chars: "CHR '' '' \<notin> set s" "CHR ''_'' \<notin> set s" "CHR 0x0A \<notin> set s"
    using sep by blast+
  have rep: "str_replace CHR ''_'' CHR '' '' s = s"
    using s_chars(2) by (rule str_replace_absent)
  let ?gs = "groups_from [char_upper c] (char_upper c) cs"
  have first: "sensor_name_loop s 0 [] [] = sensor_name_loop s 1 [char_upper c] []"
    by (subst sensor_name_loop.simps) (simp add: s_def)
  have "sensor_name_loop s 1 [char_upper c] [] = (last ?gs, [] @ map finish_group (butlast ?gs))"
    using loop_groups[of "length s - 1" s 1 "[char_upper c]" "[]"] s_chars(1)
    by (simp add: s_def)
  with first have loop: "sensor_name_loop s 0 [] [] = (last ?gs, map finish_group (butlast ?gs))"
    by simp
  have ne: "?gs \<noteq> []" by (rule groups_from_nonempty)
  have lastne: "last ?gs \<noteq> []"
    using groups_from_no_empty[of "[char_upper c]" "char_upper c" cs] last_in_set[OF ne] by auto
  have "map finish_group (butlast ?gs) @ [finish_group (last ?gs)] = map finish_group ?gs"
    using ne by (metis append_butlast_last_id list.simps(8,9) map_append)
  also have "\<dots> = map label_group ?gs"
    using map_finish_groups[of "[char_upper c]" cs "char_upper c"] s_chars(3) by (simp add: s_def)
  finally have words: "map finish_group (butlast ?gs) @ [finish_group (last ?gs)] = map label_group ?gs" .
  have "get_sensor_name attr_name = Inr (join '' '' (map label_group ?gs))"
    using n rep loop lastne words by (simp add: get_sensor_name_def s_def)
  moreover have "sensor_name_label attr_name = join '' '' (map label_group ?gs)"
    by (simp add: sensor_name_label_def label_of_def split_groups_def capitalize_first_def n)
  ultimately show ?thesis by simp
qed

theorem sensor_name_is_label_witness:
  "get_sensor_name ''userSelections/applianceMainBoardSwVersion'' = Inr ''appliance main board sw version''"
proof -
  have a: "''userSelections/applianceMainBoardSwVersion'' \<noteq> []" by simp
  have b: "\<forall>c \<in> set (get_entity_name ''userSelections/applianceMainBoardSwVersion''). plain_char c"
    by code_simp
  have c: "sensor_name_label ''userSelections/applianceMainBoardSwVersion'' = ''appliance main board sw version''"
    by code_simp
  show ?thesis using c sensor_name_is_label[OF a b] by simp
qed

section \<open>The update path\<close>

text \<open>Facts about assignment to a dictionary, and the state through the re-scan.\<close>

lemma map_of_dict_set: "map_of (dict_set d k v) k' = (if k' = k then Some v else map_of d k')"
  by (induction d) auto

lemma filter_dict_set: "k \<in> K \<Longrightarrow> [kv \<leftarrow> dict_set d k v. fst kv \<notin> K] = [kv \<leftarrow> d. fst kv \<notin> K]"
  by (induction d) auto

lemma map_of_dict_update:
  "distinct (map fst other) \<Longrightarrow>
   map_of (dict_update d other) k = (case map_of other k of Some v \<Rightarrow> Some v | None \<Rightarrow> map_of d k)"
proof (induction other arbitrary: d)
  case Nil
  then show ?case by (simp add: dict_update_def)
next
  case (Cons kv other)
  obtain k0 v0 where kv: "kv = (k0, v0)" by (cases kv)
  from Cons.prems kv have d: "distinct (map fst other)" and n: "map_of other k0 = None"
    by (auto simp: map_of_eq_None_iff)
  have "dict_update d (kv # other) = dict_update (dict_set d k0 v0) other"
    by (simp add: dict_update_def kv)
  then show ?case
    using Cons.IH[OF d, of "dict_set d k0 v0"] n
    by (auto simp: kv map_of_dict_set split: option.splits)
qed

lemma filter_dict_update:
  "set (map fst other) \<subseteq> K \<Longrightarrow> [kv \<leftarrow> dict_update d other. fst kv \<notin> K] = [kv \<leftarrow> d. fst kv \<notin> K]"
proof (induction other arbitrary: d)
  case Nil
  then show ?case by (simp add: dict_update_def)
next
  case (Cons kv other)
  obtain k0 v0 where kv: "kv = (k0, v0)" by (cases kv)
  have "dict_update d (kv # other) = dict_update (dict_set d k0 v0) other"
    by (simp add: dict_update_def kv)
  then show ?case
    using Cons.IH[of "dict_set d k0 v0"] Cons.prems filter_dict_set[of k0 K d v0]
    by (simp add: kv)
qed

lemma step_state: "state (fst (fst (missing_entity_step C r key item (a, capa)))) = state a"
  by (simp add: missing_entity_step_def Let_def split: sum.splits bool.splits option.splits)

lemma items_loop_state: "state (fst (fst (missing_items_loop C r key items (a, capa)))) = state a"
proof (induction items arbitrary: a capa)
  case Nil
  then show ?case by simp
next
  case (Cons item items)
  obtain a' capa' err where s: "missing_entity_step C r key item (a, capa) = ((a', capa'), err)"
    by (metis surj_pair)
  have "state a' = state a" using step_state[of C r key item a capa] s by simp
  then show ?case using s Cons.IH[of a' capa'] by (cases err) auto
qed

lemma catalog_loop_state: "state (fst (fst (missing_catalog_loop C r todo (a, capa)))) = state a"
proof (induction todo arbitrary: a capa)
  case Nil
  then show ?case by simp
next
  case (Cons kv todo)
  obtain key v where kv: "kv = (key, v)" by (cases kv)
  show ?case
  proof (cases v)
    case (Device d)
    then show ?thesis by (simp add: kv)
  next
    case (Devices items)
    obtain a' capa' err where s: "missing_items_loop C r key items (a, capa) = ((a', capa'), err)"
      by (metis surj_pair)
    have "state a' = state a" using items_loop_state[of C r key items a capa] s by simp
    then show ?thesis using s Cons.IH[of a' capa'] by (cases err) (auto simp: kv Devices)
  qed
qed

lemma update_missing_entities_state: "state (fst (update_missing_entities C a)) = state a"
proof -
  have "state (fst (case missing_catalog_loop C r C (a, []) of ((a', capa), err) \<Rightarrow> (a', err))) = state a" for r
  proof -
    obtain a' capa err where s: "missing_catalog_loop C r C (a, []) = ((a', capa), err)"
      by (metis surj_pair)
    then show ?thesis using catalog_loop_state[of C r C a "[]"] by simp
  qed
  then show ?thesis
    by (simp add: update_missing_entities_def split: sum.splits)
qed

lemma update_reported_data_state:
  assumes "state a = JDict st" and "dict_get st ''properties'' = JDict properties"
    and "dict_get properties ''reported'' = JDict local_reported_data"
  shows "state (fst (update_reported_data C a reported_data))
       = JDict (dict_set st ''properties''
           (JDict (dict_set properties ''reported''
              (JDict (dict_update local_reported_data reported_data)))))"
proof -
  let ?a1 = "a\<lparr>state := JDict (dict_set st ''properties''
           (JDict (dict_set properties ''reported''
              (JDict (dict_update local_reported_data reported_data)))))\<rparr>"
  obtain a2 err where u: "update_missing_entities C ?a1 = (a2, err)"
    by (cases "update_missing_entities C ?a1")
  have a2: "state a2 = state ?a1"
    using update_missing_entities_state[of C ?a1] u by simp
  have "state (fst (update_reported_data_try C a reported_data)) = state ?a1"
    using assms u a2
    by (auto simp: update_reported_data_try_def Let_def split: option.splits prod.splits)
  then show ?thesis
    by (auto simp: update_reported_data_def split: prod.splits option.splits)
qed

text \<open>
  C7. When the stored state has a dictionary under "properties" and that one a dictionary under
  "reported", \<^verbatim>\<open>update_reported_data\<close> leaves the state with the merged dictionary in that
  place and everything else as it was: in the merged dictionary every key of the incoming data
  has the incoming value, every other key has the value it had, and the entries whose keys are
  not in the incoming data are the same entries in the same order as before. The keys of a
  Python dictionary are distinct.
\<close>

theorem update_reported_data_merge:
  assumes "state a = JDict st" and "dict_get st ''properties'' = JDict properties"
    and "dict_get properties ''reported'' = JDict local_reported_data"
    and "distinct (map fst reported_data)"
  shows "state (fst (update_reported_data Catalog a reported_data))
          = JDict (dict_set st ''properties''
              (JDict (dict_set properties ''reported''
                 (JDict (dict_update local_reported_data reported_data)))))
       \<and> (\<forall>k. map_of (dict_update local_reported_data reported_data) k
                = (case map_of reported_data k of Some v \<Rightarrow> Some v
                   | None \<Rightarrow> map_of local_reported_data k))
       \<and> [kv \<leftarrow> dict_update local_reported_data reported_data. fst kv \<notin> set (map fst reported_data)]
          = [kv \<leftarrow> local_reported_data. fst kv \<notin> set (map fst reported_data)]"
  using update_reported_data_state[OF assms(1-3)] map_of_dict_update[OF assms(4)]
    filter_dict_update[of reported_data "set (map fst reported_data)" local_reported_data]
  by simp

theorem update_reported_data_merge_witness:
  "state (fst (update_reported_data []
      \<lparr>own_capabilties = False, data = None, pnc_id = ''950011538111111115'',
       state = JDict [(''applianceId'', JStr ''950011538111111115''),
                      (''properties'', JDict [(''reported'',
                          JDict [(''doorState'', JStr ''CLOSED''), (''timeToEnd'', JInt 600)])])],
       entities = Some []\<rparr>
      [(''timeToEnd'', JInt 540), (''cyclePhase'', JStr ''WASH'')]))
   = JDict [(''applianceId'', JStr ''950011538111111115''),
            (''properties'', JDict [(''reported'',
                JDict [(''doorState'', JStr ''CLOSED''), (''timeToEnd'', JInt 540),
                       (''cyclePhase'', JStr ''WASH'')])])]"
  using update_reported_data_merge
    [of "\<lparr>own_capabilties = False, data = None, pnc_id = ''950011538111111115'',
       state = JDict [(''applianceId'', JStr ''950011538111111115''),
                      (''properties'', JDict [(''reported'',
                          JDict [(''doorState'', JStr ''CLOSED''), (''timeToEnd'', JInt 600)])])],
       entities = Some []\<rparr>"
       "[(''applianceId'', JStr ''950011538111111115''),
                      (''properties'', JDict [(''reported'',
                          JDict [(''doorState'', JStr ''CLOSED''), (''timeToEnd'', JInt 600)])])]"
       "[(''reported'', JDict [(''doorState'', JStr ''CLOSED''), (''timeToEnd'', JInt 600)])]"
       "[(''doorState'', JStr ''CLOSED''), (''timeToEnd'', JInt 600)]"
       "[(''timeToEnd'', JInt 540), (''cyclePhase'', JStr ''WASH'')]" "[]"]
  by (simp add: dict_get_def dict_update_def)

text \<open>
  C8. No exception leaves \<^verbatim>\<open>update_reported_data\<close>, whatever the stored state and the
  incoming data are. The statements under \<^verbatim>\<open>try\<close> do raise: with a state that has no
  "properties" entry they end with AttributeError, which the handler catches.
\<close>

theorem update_reported_data_no_exception:
  "snd (update_reported_data Catalog a reported_data) = None
   \<and> update_reported_data_try Catalog (a\<lparr>state := JDict []\<rparr>) reported_data
       = (a\<lparr>state := JDict []\<rparr>, Some AttributeError)"
proof -
  have "is_Exception ex" for ex by (cases ex) simp_all
  then have "snd (update_reported_data Catalog a reported_data) = None"
    by (simp add: update_reported_data_def split: prod.splits option.splits)
  moreover have "update_reported_data_try Catalog (a\<lparr>state := JDict []\<rparr>) reported_data
       = (a\<lparr>state := JDict []\<rparr>, Some AttributeError)"
    by (simp add: update_reported_data_try_def dict_get_def)
  ultimately show ?thesis by simp
qed

text \<open>
  C6 fails on the code. The appliance runs the re-scan (\<^verbatim>\<open>own_capabilties\<close> is true), the
  catalog knows "doorState", the reported state has it and no entity for it exists. The variable
  \<^verbatim>\<open>capability\<close> is assigned only in the branch where an entity was found, so
  \<^verbatim>\<open>get_entity\<close> is called with "" and raises KeyError at \<^verbatim>\<open>self.data.capabilities[""]\<close>:
  no entity is appended.
\<close>

theorem discovered_entity_not_added:
  "update_missing_entities
     [(''doorState'', Devices [\<lparr>category = None,
          capability_info = JDict [(''access'', JStr ''read''), (''type'', JStr ''string'')],
          device_class = None, unit = None, entity_category = None, entity_icon = None\<rparr>])]
     \<lparr>own_capabilties = True, data = Some \<lparr>lib_name = ''Oven'', capabilities = Some []\<rparr>,
      pnc_id = ''944188772'',
      state = JDict [(''properties'', JDict [(''reported'', JDict [(''doorState'', JStr ''OPEN'')])])],
      entities = Some []\<rparr>
   = (\<lparr>own_capabilties = True, data = Some \<lparr>lib_name = ''Oven'', capabilities = Some []\<rparr>,
      pnc_id = ''944188772'',
      state = JDict [(''properties'', JDict [(''reported'', JDict [(''doorState'', JStr ''OPEN'')])])],
      entities = Some []\<rparr>, Some (KeyError ''''))"
  by (simp add: update_missing_entities_def missing_entity_step_def reported_has_def dict_get_def
        get_entity_def get_entity_type_def caps_item_def)

section \<open>The capabilities rebuilt from the catalog\<close>

lemma reported_has_dict:
  assumes "case categ of None \<Rightarrow> True
           | Some c \<Rightarrow> c = [] \<or> \<not> truthy (dict_get rd c) \<or> is_dict (dict_get rd c)"
  shows "reported_has (JDict rd) categ key = Inr (reported_true rd categ key)"
proof (cases categ)
  case None
  then show ?thesis by (simp add: reported_has_def reported_true_def)
next
  case (Some c)
  show ?thesis
  proof (cases "c = []")
    case True
    then show ?thesis using Some by (simp add: reported_has_def reported_true_def)
  next
    case False
    then show ?thesis using Some assms
      by (cases "dict_get rd c") (auto simp: reported_has_def reported_true_def)
  qed
qed

lemma rebuild_loop_spec:
  assumes "containers_are_dicts rd items"
  shows "\<exists>caps. rebuild_loop (JDict rd) (map (\<lambda>(k, i). (k, Device i)) items) (caps0, names0)
           = Inr (caps, names0 @ map (\<lambda>(k, i). catalog_path (category i) k) (filter (rebuilt_from rd) items))
         \<and> (\<forall>p. map_of caps p
               = (case map_of (rev (map (\<lambda>(k, i). (catalog_path (category i) k, capability_info i))
                                     (filter (rebuilt_from rd) items))) p of
                    Some v \<Rightarrow> Some v | None \<Rightarrow> map_of caps0 p))"
  using assms
proof (induction items arbitrary: caps0 names0)
  case Nil
  then show ?case by simp
next
  case (Cons entry items)
  obtain k i where e: "entry = (k, i)" by (cases entry)
  from Cons.prems have ok: "case category i of None \<Rightarrow> True
           | Some c \<Rightarrow> c = [] \<or> \<not> truthy (dict_get rd c) \<or> is_dict (dict_get rd c)"
    and rest: "containers_are_dicts rd items"
    by (simp_all add: containers_are_dicts_def e)
  have rh: "reported_has (JDict rd) (category i) k = Inr (reported_true rd (category i) k)"
    using ok by (rule reported_has_dict)
  show ?case
  proof (cases "rebuilt_from rd (k, i)")
    case True
    let ?path = "catalog_path (category i) k"
    from Cons.IH[OF rest, of "dict_set caps0 ?path (capability_info i)" "names0 @ [?path]"]
    obtain caps where c: "rebuild_loop (JDict rd) (map (\<lambda>(k, i). (k, Device i)) items)
            (dict_set caps0 ?path (capability_info i), names0 @ [?path])
           = Inr (caps, (names0 @ [?path]) @ map (\<lambda>(k, i). catalog_path (category i) k) (filter (rebuilt_from rd) items))"
      and m: "\<forall>p. map_of caps p
               = (case map_of (rev (map (\<lambda>(k, i). (catalog_path (category i) k, capability_info i))
                                     (filter (rebuilt_from rd) items))) p of
                    Some v \<Rightarrow> Some v | None \<Rightarrow> map_of (dict_set caps0 ?path (capability_info i)) p)"
      by blast
    have "rebuild_loop (JDict rd) (map (\<lambda>(k, i). (k, Device i)) (entry # items)) (caps0, names0)
          = Inr (caps, names0 @ map (\<lambda>(k, i). catalog_path (category i) k) (filter (rebuilt_from rd) (entry # items)))"
      using True rh c by (auto simp: e rebuilt_from_def Let_def)
    moreover have "\<forall>p. map_of caps p
               = (case map_of (rev (map (\<lambda>(k, i). (catalog_path (category i) k, capability_info i))
                                     (filter (rebuilt_from rd) (entry # items)))) p of
                    Some v \<Rightarrow> Some v | None \<Rightarrow> map_of caps0 p)"
      using True m by (auto simp: e map_of_dict_set map_add_def split: option.splits)
    ultimately show ?thesis by blast
  next
    case False
    from Cons.IH[OF rest, of caps0 names0]
    obtain caps where c: "rebuild_loop (JDict rd) (map (\<lambda>(k, i). (k, Device i)) items) (caps0, names0)
           = Inr (caps, names0 @ map (\<lambda>(k, i). catalog_path (category i) k) (filter (rebuilt_from rd) items))"
      and m: "\<forall>p. map_of caps p
               = (case map_of (rev (map (\<lambda>(k, i). (catalog_path (category i) k, capability_info i))
                                     (filter (rebuilt_from rd) items))) p of
                    Some v \<Rightarrow> Some v | None \<Rightarrow> map_of caps0 p)"
      by blast
    have "rebuild_loop (JDict rd) (map (\<lambda>(k, i). (k, Device i)) (entry # items)) (caps0, names0)
          = Inr (caps, names0 @ map (\<lambda>(k, i). catalog_path (category i) k) (filter (rebuilt_from rd) (entry # items)))"
      using False rh c by (auto simp: e rebuilt_from_def)
    then show ?thesis using False m by (auto simp: e)
  qed
qed

text \<open>
  C5 as stated fails: the entry "executeCommand" of the catalog is taken into the rebuilt
  capabilities although the reported state has no such key.
\<close>

theorem rebuilt_capabilities_counterexample:
  "setup_names
     [(''executeCommand'', Device \<lparr>category = None,
         capability_info = JDict [(''access'', JStr ''write''), (''type'', JStr ''string''),
                                  (''values'', JDict [(''ON'', JDict []), (''OFF'', JDict [])])],
         device_class = None, unit = None, entity_category = None, entity_icon = None\<rparr>),
      (''doorState'', Device \<lparr>category = None,
         capability_info = JDict [(''access'', JStr ''read''), (''type'', JStr ''string'')],
         device_class = None, unit = None, entity_category = None, entity_icon = None\<rparr>)]
     (JDict [(''properties'', JDict [(''reported'', JDict [(''doorState'', JStr ''OPEN'')])])])
     None
   = Inr (Some [''executeCommand'', ''doorState''],
          Some [(''executeCommand'', JDict [(''access'', JStr ''write''), (''type'', JStr ''string''),
                                  (''values'', JDict [(''ON'', JDict []), (''OFF'', JDict [])])]),
                (''doorState'', JDict [(''access'', JStr ''read''), (''type'', JStr ''string'')])])
   \<and> map_of [(''doorState'', JStr ''OPEN'')] ''executeCommand'' = None"
  by (simp add: setup_names_def sources_list_def dict_get_def reported_has_def catalog_path_def Let_def)

text \<open>
  The keys of the capabilities through the rest of \<^verbatim>\<open>setup\<close>: the loop over the common
  attributes adds keys at the end, the loop over the capabilities adds none, and this is so
  also where an exception ends the loop.
\<close>

lemma keys_dict_set:
  "map fst (dict_set d k v) = (if k \<in> set (map fst d) then map fst d else map fst d @ [k])"
proof (induction d)
  case Nil
  then show ?case by simp
next
  case (Cons x d)
  obtain k' v' where x: "x = (k', v')" by (cases x)
  show ?case using Cons by (cases "k' = k") (auto simp: x)
qed

lemma richer_catalog_keys:
  assumes "richer_catalog ci (Some d) capa info = (caps', r)" and "capa \<in> set (map fst d)"
  shows "\<exists>d'. caps' = Some d' \<and> map fst d' = map fst d"
proof -
  from assms(1) consider "caps' = Some d" | merged where "caps' = Some (dict_set d capa merged)"
    by (auto simp: richer_catalog_def Let_def
        split: option.splits if_splits catalog_value.splits json.splits)
  then show ?thesis
  proof cases
    case 1
    then show ?thesis by simp
  next
    case 2
    then show ?thesis using assms(2) by (simp add: keys_dict_set)
  qed
qed

lemma capability_step_keys:
  assumes "capability_step C icons p n ci capa (Some d) ents = (caps', r)"
  shows "\<exists>d'. caps' = Some d' \<and> map fst d' = map fst d"
proof (cases "caps_item (Some d) capa")
  case (Inl e)
  with assms show ?thesis by (auto simp: capability_step_def)
next
  case (Inr info)
  then have mem: "capa \<in> set (map fst d)"
    by (auto simp: caps_item_def split: option.splits dest: map_of_SomeD intro: rev_image_eqI)
  obtain caps1 r1 where rc: "richer_catalog ci (Some d) capa info = (caps1, r1)"
    by (cases "richer_catalog ci (Some d) capa info")
  from assms Inr rc have "caps' = caps1"
    by (auto simp: capability_step_def Let_def split: sum.splits prod.splits if_splits option.splits)
  with richer_catalog_keys[OF rc mem] show ?thesis by simp
qed

lemma capability_loop_keys:
  "capability_loop C icons p n ci names (Some d) ents = (caps', r)
   \<Longrightarrow> \<exists>d'. caps' = Some d' \<and> map fst d' = map fst d"
proof (induction names arbitrary: d ents)
  case Nil
  then show ?case by auto
next
  case (Cons capa names)
  obtain caps1 r1 where s: "capability_step C icons p n ci capa (Some d) ents = (caps1, r1)"
    by (cases "capability_step C icons p n ci capa (Some d) ents")
  from capability_step_keys[OF s] obtain d1 where d1: "caps1 = Some d1" "map fst d1 = map fst d"
    by blast
  show ?case
  proof (cases r1)
    case (Inl e)
    with s Cons.prems d1 show ?thesis by auto
  next
    case (Inr ents1)
    with s Cons.prems d1 have "capability_loop C icons p n ci names (Some d1) ents1 = (caps', r)"
      by simp
    from Cons.IH[OF this] d1 show ?thesis by simp
  qed
qed

lemma common_step_keys:
  assumes "common_step C p n names ca (Some d) loc = (caps', r)"
  shows "\<exists>d' extra. caps' = Some d' \<and> map fst d' = map fst d @ extra \<and> set extra \<subseteq> {ca}"
proof -
  from assms consider "caps' = Some d" | v where "caps' = Some (dict_set d ca v)"
    by (auto simp: common_step_def Let_def caps_set_def
        split: option.splits if_splits catalog_value.splits sum.splits)
  then show ?thesis
  proof cases
    case 1
    then show ?thesis by simp
  next
    case 2
    then show ?thesis by (simp add: keys_dict_set)
  qed
qed

lemma common_loop_keys:
  "common_loop C p n names todo (Some d) loc = (caps', r)
   \<Longrightarrow> \<exists>d' extra. caps' = Some d' \<and> map fst d' = map fst d @ extra \<and> set extra \<subseteq> set todo"
proof (induction todo arbitrary: d loc)
  case Nil
  then show ?case by auto
next
  case (Cons ca todo)
  obtain caps1 r1 where s: "common_step C p n names ca (Some d) loc = (caps1, r1)"
    by (cases "common_step C p n names ca (Some d) loc")
  from common_step_keys[OF s] obtain d1 extra1 where
    d1: "caps1 = Some d1" "map fst d1 = map fst d @ extra1" "set extra1 \<subseteq> {ca}"
    by blast
  show ?case
  proof (cases r1)
    case (Inl e)
    with s Cons.prems d1 show ?thesis by auto
  next
    case (Inr loc1)
    with s Cons.prems d1 have "common_loop C p n names todo (Some d1) loc1 = (caps', r)"
      by simp
    from Cons.IH[OF this] obtain d' extra2 where
      d': "caps' = Some d'" "map fst d' = map fst d1 @ extra2" "set extra2 \<subseteq> set todo"
      by blast
    have "map fst d' = map fst d @ (extra1 @ extra2)" using d1 d' by simp
    moreover have "set (extra1 @ extra2) \<subseteq> set (ca # todo)" using d1 d' by auto
    ultimately show ?thesis using d'(1) by blast
  qed
qed

lemma setup_keys:
  assumes "setup_names C (state a) (capabilities dat) = Inr (onames, Some caps0)"
  shows "\<exists>final extra. data (fst (Appliance_setup C COMMON icons a dat))
            = Some (dat\<lparr>capabilities := Some final\<rparr>)
          \<and> map fst final = map fst caps0 @ extra \<and> set extra \<subseteq> set COMMON"
proof -
  obtain caps1 r1 where c: "common_loop C (pnc_id a) (lib_name dat) onames COMMON (Some caps0) ([], None) = (caps1, r1)"
    by (cases "common_loop C (pnc_id a) (lib_name dat) onames COMMON (Some caps0) ([], None)")
  from common_loop_keys[OF c] obtain d1 extra where
    d1: "caps1 = Some d1" "map fst d1 = map fst caps0 @ extra" "set extra \<subseteq> set COMMON"
    by blast
  show ?thesis
  proof (cases r1)
    case (Inl e)
    with assms c d1 show ?thesis by (auto simp: Appliance_setup_def)
  next
    case r1: (Inr loc)
    obtain ents1 ci where loc: "loc = (ents1, ci)" by (cases loc)
    show ?thesis
    proof (cases onames)
      case None
      with assms c d1 r1 loc show ?thesis by (auto simp: Appliance_setup_def)
    next
      case (Some names)
      obtain caps2 r2 where l: "capability_loop C icons (pnc_id a) (lib_name dat) ci names (Some d1) ents1 = (caps2, r2)"
        by (cases "capability_loop C icons (pnc_id a) (lib_name dat) ci names (Some d1) ents1")
      from capability_loop_keys[OF l] obtain d2 where d2: "caps2 = Some d2" "map fst d2 = map fst d1"
        by blast
      have "data (fst (Appliance_setup C COMMON icons a dat)) = Some (dat\<lparr>capabilities := Some d2\<rparr>)"
        using assms c d1 r1 loc Some l d2
        by (cases r2) (auto simp: Appliance_setup_def split: prod.splits)
      with d1 d2 show ?thesis by auto
    qed
  qed
qed

text \<open>
  C5, amended. Take a catalog of single items, capabilities that are None and a last state that
  has, under "properties", a non-empty dictionary "reported" in which every true value under a
  category of the catalog is a dictionary. Then the fallback block of \<^verbatim>\<open>setup\<close> takes
  exactly the catalog entries whose key has a true value in the reported state, under the
  category of the entry or at top level when the category is empty, and the entry
  "executeCommand" in any case. The names are the paths of these entries in the order of the
  catalog; the dictionary that the block assigns to \<^verbatim>\<open>self.data.capabilities\<close> has these
  paths as its keys and gives every path the \<^verbatim>\<open>capability_info\<close> of its entry (of the last
  one, should two entries have the same path). When \<^verbatim>\<open>setup\<close> ends, normally or with an
  exception, the capabilities have these keys in the same order, followed only by keys out of
  COMMON_ATTRIBUTES. What the loop over the capabilities merges into the rebuilt values is not
  part of the statement.
\<close>

theorem rebuilt_capabilities:
  assumes "state a = JDict sd" and "map_of sd ''properties'' = Some (JDict props)"
    and "dict_get props ''reported'' = JDict rd" and "rd \<noteq> []"
    and "containers_are_dicts rd items"
    and "capabilities the_data = None"
  shows "\<exists>caps. setup_names (map (\<lambda>(k, i). (k, Device i)) items) (state a) (capabilities the_data)
           = Inr (Some (map (\<lambda>(k, i). catalog_path (category i) k) (filter (rebuilt_from rd) items)),
                  Some caps)
         \<and> set (map fst caps)
             = set (map (\<lambda>(k, i). catalog_path (category i) k) (filter (rebuilt_from rd) items))
         \<and> (\<forall>p. map_of caps p
               = map_of (rev (map (\<lambda>(k, i). (catalog_path (category i) k, capability_info i))
                                (filter (rebuilt_from rd) items))) p)
         \<and> (\<exists>final extra.
               data (fst (Appliance_setup (map (\<lambda>(k, i). (k, Device i)) items)
                            COMMON_ATTRIBUTES icon_mapping a the_data))
                 = Some (the_data\<lparr>capabilities := Some final\<rparr>)
               \<and> map fst final = map fst caps @ extra
               \<and> set extra \<subseteq> set COMMON_ATTRIBUTES)"
proof -
  let ?C = "map (\<lambda>(k, i). (k, Device i)) items"
  let ?sel = "filter (rebuilt_from rd) items"
  let ?pairs = "map (\<lambda>(k, i). (catalog_path (category i) k, capability_info i)) ?sel"
  from assms(2) have sd: "sd \<noteq> []" by auto
  from rebuild_loop_spec[OF assms(5), of "[]" "[]"]
  obtain caps where c: "rebuild_loop (JDict rd) ?C ([], [])
           = Inr (caps, map (\<lambda>(k, i). catalog_path (category i) k) ?sel)"
    and m: "\<forall>p. map_of caps p
               = (case map_of (rev ?pairs) p of Some v \<Rightarrow> Some v | None \<Rightarrow> map_of [] p)"
    by auto
  have names: "setup_names ?C (state a) (capabilities the_data)
           = Inr (Some (map (\<lambda>(k, i). catalog_path (category i) k) ?sel), Some caps)"
    using assms(1-4,6) sd c by (simp add: setup_names_def sources_list_def)
  have look: "\<forall>p. map_of caps p = map_of (rev ?pairs) p"
    using m by (auto split: option.splits)
  then have "map_of caps = map_of (rev ?pairs)" by auto
  then have "dom (map_of caps) = dom (map_of (rev ?pairs))" by simp
  then have "fst ` set caps = fst ` set ?pairs"
    by (simp add: dom_map_of_conv_image_fst)
  moreover have "map fst ?pairs = map (\<lambda>(k, i). catalog_path (category i) k) ?sel"
    by (induction ?sel) auto
  ultimately have keys: "set (map fst caps) = set (map (\<lambda>(k, i). catalog_path (category i) k) ?sel)"
    by (metis set_map)
  from setup_keys[OF names]
  have "\<exists>final extra.
               data (fst (Appliance_setup ?C COMMON_ATTRIBUTES icon_mapping a the_data))
                 = Some (the_data\<lparr>capabilities := Some final\<rparr>)
               \<and> map fst final = map fst caps @ extra
               \<and> set extra \<subseteq> set COMMON_ATTRIBUTES" .
  with names keys look show ?thesis by blast
qed

theorem rebuilt_capabilities_witness:
  "\<exists>caps. setup_names
     [(''doorState'', Device \<lparr>category = None,
         capability_info = JDict [(''access'', JStr ''read''), (''type'', JStr ''string'')],
         device_class = None, unit = None, entity_category = None, entity_icon = None\<rparr>),
      (''cavityLight'', Device \<lparr>category = None,
         capability_info = JDict [(''access'', JStr ''readwrite''), (''type'', JStr ''boolean'')],
         device_class = None, unit = None, entity_category = None, entity_icon = None\<rparr>),
      (''linkQualityIndicator'', Device \<lparr>category = Some ''networkInterface'',
         capability_info = JDict [(''access'', JStr ''read''), (''type'', JStr ''string'')],
         device_class = None, unit = None, entity_category = None, entity_icon = None\<rparr>)]
     (JDict [(''properties'', JDict [(''reported'',
         JDict [(''doorState'', JStr ''OPEN''), (''cavityLight'', JBool False),
                (''networkInterface'', JDict [(''linkQualityIndicator'', JStr ''GOOD'')])])])])
     None
     = Inr (Some [''doorState'', ''networkInterface/linkQualityIndicator''], Some caps)
   \<and> map_of caps ''doorState'' = Some (JDict [(''access'', JStr ''read''), (''type'', JStr ''string'')])
   \<and> map_of caps ''cavityLight'' = None"
proof -
  let ?items = "[(''doorState'', \<lparr>category = None,
         capability_info = JDict [(''access'', JStr ''read''), (''type'', JStr ''string'')],
         device_class = None, unit = None, entity_category = None, entity_icon = None\<rparr>),
      (''cavityLight'', \<lparr>category = None,
         capability_info = JDict [(''access'', JStr ''readwrite''), (''type'', JStr ''boolean'')],
         device_class = None, unit = None, entity_category = None, entity_icon = None\<rparr>),
      (''linkQualityIndicator'', \<lparr>category = Some ''networkInterface'',
         capability_info = JDict [(''access'', JStr ''read''), (''type'', JStr ''string'')],
         device_class = None, unit = None, entity_category = None, entity_icon = None\<rparr>)]"
  let ?rd = "[(''doorState'', JStr ''OPEN''), (''cavityLight'', JBool False),
                (''networkInterface'', JDict [(''linkQualityIndicator'', JStr ''GOOD'')])]"
  let ?sd = "[(''properties'', JDict [(''reported'', JDict ?rd)])]"
  let ?a = "\<lparr>own_capabilties = False, data = None, pnc_id = ''944188772'',
            state = JDict ?sd, entities = None\<rparr>"
  let ?d = "\<lparr>lib_name = ''Oven'', capabilities = None\<rparr>"
  have 0: "state ?a = JDict ?sd" by simp
  have 1: "map_of ?sd ''properties'' = Some (JDict [(''reported'', JDict ?rd)])" by simp
  have 2: "dict_get [(''reported'', JDict ?rd)] ''reported'' = JDict ?rd" by (simp add: dict_get_def)
  have 3: "?rd \<noteq> []" by simp
  have 4: "containers_are_dicts ?rd ?items" by (simp add: containers_are_dicts_def dict_get_def)
  have 5: "capabilities ?d = None" by simp
  have sel: "filter (rebuilt_from ?rd) ?items
      = [(''doorState'', \<lparr>category = None,
           capability_info = JDict [(''access'', JStr ''read''), (''type'', JStr ''string'')],
           device_class = None, unit = None, entity_category = None, entity_icon = None\<rparr>),
         (''linkQualityIndicator'', \<lparr>category = Some ''networkInterface'',
           capability_info = JDict [(''access'', JStr ''read''), (''type'', JStr ''string'')],
           device_class = None, unit = None, entity_category = None, entity_icon = None\<rparr>)]"
    by (simp add: rebuilt_from_def reported_true_def dict_get_def)
  from rebuilt_capabilities[OF 0 1 2 3 4 5, of "[''connectivityState'']" "[]"]
  obtain caps where
    n: "setup_names (map (\<lambda>(k, i). (k, Device i)) ?items) (state ?a) (capabilities ?d)
         = Inr (Some (map (\<lambda>(k, i). catalog_path (category i) k) (filter (rebuilt_from ?rd) ?items)),
                Some caps)"
    and l: "\<forall>p. map_of caps p
               = map_of (rev (map (\<lambda>(k, i). (catalog_path (category i) k, capability_info i))
                                (filter (rebuilt_from ?rd) ?items))) p"
    by blast
  from n have "setup_names (map (\<lambda>(k, i). (k, Device i)) ?items) (JDict ?sd) None
         = Inr (Some [''doorState'', ''networkInterface/linkQualityIndicator''], Some caps)"
    unfolding sel by (simp add: catalog_path_def)
  moreover from l have "map_of caps ''doorState''
        = Some (JDict [(''access'', JStr ''read''), (''type'', JStr ''string'')])"
      and "map_of caps ''cavityLight'' = None"
    unfolding sel by (simp_all add: catalog_path_def)
  ultimately show ?thesis by simp
qed

section \<open>The entities that setup creates\<close>

text \<open>
  Every entity that the loops of \<^verbatim>\<open>setup\<close> append is built for the path of its round:
  a common attribute in the first loop, a capability name in the second.
\<close>

lemma get_entity_built_for:
  assumes "get_entity C p dat c = Inr (Some e)"
  shows "built_for c e"
proof -
  from assms obtain kind label cinfo u ecat dc ic where
    "e = \<lparr>e_name = lib_name dat @ '' '' @ label, entity_type = kind,
          entity_attr = get_entity_name c, entity_source = get_category c,
          e_pnc_id = p, capability = cinfo, e_unit = u, e_entity_category = ecat,
          e_device_class = dc, e_icon = ic, val_to_send = None, e_data = False,
          appliance_status = False\<rparr>"
    by (auto simp: get_entity_def Let_def split: sum.splits option.splits if_splits prod.splits)
  then show ?thesis by (simp add: built_for_def)
qed

lemma command_buttons_built:
  "command_buttons icons p n en cat ci dc cmds = Inr bs \<Longrightarrow> Some e \<in> set bs
   \<Longrightarrow> entity_attr e = en \<and> entity_source e = cat"
proof (induction cmds arbitrary: bs)
  case Nil
  then show ?case by simp
next
  case (Cons cmd cmds)
  then show ?case
    by (auto split: sum.splits)
qed

lemma capability_step_new:
  assumes "capability_step C icons p n ci capa caps ents = (caps', Inr ents')"
  shows "\<exists>new. ents' = ents @ new \<and> (\<forall>e. Some e \<in> set new \<longrightarrow> built_for capa e)"
proof -
  from assms consider
      (buttons) cinfo dc cmds bs where
        "command_buttons icons p n (get_entity_name capa) (get_category capa) cinfo dc cmds = Inr bs"
        "ents' = ents @ bs"
    | (none) "ents' = ents"
    | (entity) dat e where "get_entity C p dat capa = Inr (Some e)" "ents' = ents @ [Some e]"
    by (auto simp: capability_step_def Let_def split: sum.splits prod.splits if_splits option.splits)
  then show ?thesis
  proof cases
    case buttons
    then show ?thesis using command_buttons_built[OF buttons(1)] by (auto simp: built_for_def)
  next
    case none
    then show ?thesis by simp
  next
    case entity
    then show ?thesis using get_entity_built_for[OF entity(1)] by simp
  qed
qed

lemma capability_loop_new:
  "capability_loop C icons p n ci names caps ents = (caps', Inr ents')
   \<Longrightarrow> \<exists>new. ents' = ents @ new \<and> (\<forall>e. Some e \<in> set new \<longrightarrow> (\<exists>c \<in> set names. built_for c e))"
proof (induction names arbitrary: caps ents)
  case Nil
  then show ?case by simp
next
  case (Cons capa names)
  obtain caps1 r where s: "capability_step C icons p n ci capa caps ents = (caps1, r)"
    by (cases "capability_step C icons p n ci capa caps ents")
  show ?case
  proof (cases r)
    case (Inl err)
    with s Cons.prems show ?thesis by simp
  next
    case (Inr ents1)
    with s Cons.prems have l: "capability_loop C icons p n ci names caps1 ents1 = (caps', Inr ents')"
      by simp
    from capability_step_new[OF s[unfolded Inr]]
    obtain new1 where n1: "ents1 = ents @ new1" "\<forall>e. Some e \<in> set new1 \<longrightarrow> built_for capa e"
      by blast
    from Cons.IH[OF l]
    obtain new2 where n2: "ents' = ents1 @ new2"
        "\<forall>e. Some e \<in> set new2 \<longrightarrow> (\<exists>c \<in> set names. built_for c e)"
      by blast
    have "ents' = ents @ (new1 @ new2)" using n1 n2 by simp
    moreover have "\<forall>e. Some e \<in> set (new1 @ new2) \<longrightarrow> (\<exists>c \<in> set (capa # names). built_for c e)"
      using n1 n2 by auto
    ultimately show ?thesis by blast
  qed
qed

lemma common_step_new:
  assumes "common_step C p n names ca caps (ents, ci) = (caps', Inr (ents', ci'))"
  shows "\<exists>new. ents' = ents @ new \<and> (\<forall>e. Some e \<in> set new \<longrightarrow> built_for ca e)"
proof -
  from assms consider
      (same) "ents' = ents"
    | (entity) dat ent where "get_entity C p dat ca = Inr ent" "ents' = ents @ [ent]"
    by (auto simp: common_step_def Let_def
        split: sum.splits prod.splits if_splits option.splits catalog_value.splits)
  then show ?thesis
  proof cases
    case same
    then show ?thesis by simp
  next
    case entity
    then show ?thesis using get_entity_built_for[of C p dat ca] by auto
  qed
qed

lemma common_loop_new:
  "common_loop C p n names todo caps (ents, ci) = (caps', Inr (ents', ci'))
   \<Longrightarrow> \<exists>new. ents' = ents @ new \<and> (\<forall>e. Some e \<in> set new \<longrightarrow> (\<exists>c \<in> set todo. built_for c e))"
proof (induction todo arbitrary: caps ents ci)
  case Nil
  then show ?case by simp
next
  case (Cons ca todo)
  obtain caps1 r where s: "common_step C p n names ca caps (ents, ci) = (caps1, r)"
    by (cases "common_step C p n names ca caps (ents, ci)")
  show ?case
  proof (cases r)
    case (Inl err)
    with s Cons.prems show ?thesis by simp
  next
    case (Inr loc)
    obtain ents1 ci1 where loc: "loc = (ents1, ci1)" by (cases loc)
    with Inr s Cons.prems have l: "common_loop C p n names todo caps1 (ents1, ci1) = (caps', Inr (ents', ci'))"
      by simp
    from common_step_new[OF s[unfolded Inr loc]]
    obtain new1 where n1: "ents1 = ents @ new1" "\<forall>e. Some e \<in> set new1 \<longrightarrow> built_for ca e"
      by blast
    from Cons.IH[OF l]
    obtain new2 where n2: "ents' = ents1 @ new2"
        "\<forall>e. Some e \<in> set new2 \<longrightarrow> (\<exists>c \<in> set todo. built_for c e)"
      by blast
    have "ents' = ents @ (new1 @ new2)" using n1 n2 by simp
    moreover have "\<forall>e. Some e \<in> set (new1 @ new2) \<longrightarrow> (\<exists>c \<in> set (ca # todo). built_for c e)"
      using n1 n2 by auto
    ultimately show ?thesis by blast
  qed
qed

lemma setup_entities_built:
  "Some e \<in> set (fst (setup_entities es))
   \<Longrightarrow> \<exists>e0. Some e0 \<in> set es \<and> entity_attr e = entity_attr e0 \<and> entity_source e = entity_source e0"
proof (induction es rule: setup_entities.induct)
  case 1
  then show ?case by simp
next
  case (2 es)
  then show ?case by auto
next
  case (3 e0 es)
  then show ?case by (auto split: prod.splits)
qed

lemma catalog_paths_Cons:
  "catalog_paths ((key, Device item) # todo) = catalog_path (category item) key # catalog_paths todo"
  "catalog_paths ((key, Devices items) # todo) = catalog_paths todo"
  by (simp_all add: catalog_paths_def)

lemma rebuild_loop_names:
  "rebuild_loop r todo acc = Inr acc' \<Longrightarrow> set (snd acc') \<subseteq> set (snd acc) \<union> set (catalog_paths todo)"
proof (induction todo arbitrary: acc)
  case Nil
  then show ?case by simp
next
  case (Cons entry todo)
  obtain key v where entry: "entry = (key, v)" by (cases entry)
  show ?case
  proof (cases v)
    case (Devices items)
    with Cons.prems entry show ?thesis by simp
  next
    case (Device item)
    show ?thesis
    proof (cases "reported_has r (category item) key")
      case (Inl e)
      with Cons.prems entry Device show ?thesis by simp
    next
      case (Inr present)
      show ?thesis
      proof (cases "present \<or> key = ''executeCommand''")
        case True
        let ?acc1 = "(dict_set (fst acc) (catalog_path (category item) key) (capability_info item),
                      snd acc @ [catalog_path (category item) key])"
        from Cons.prems entry Device Inr True
        have "rebuild_loop r todo ?acc1 = Inr acc'" by (simp add: Let_def)
        from Cons.IH[OF this]
        have "set (snd acc') \<subseteq> set (snd ?acc1) \<union> set (catalog_paths todo)" .
        then show ?thesis
          unfolding entry Device catalog_paths_Cons by auto
      next
        case False
        from Cons.prems entry Device Inr False
        have "rebuild_loop r todo acc = Inr acc'" by simp
        from Cons.IH[OF this]
        show ?thesis unfolding entry Device catalog_paths_Cons by auto
      qed
    qed
  qed
qed

lemma setup_names_from:
  assumes "setup_names C st caps = Inr (Some names, caps0)"
  shows "set names \<subseteq> set (case caps of
                            Some d \<Rightarrow> [key \<leftarrow> map fst d. \<not> startswith key ''applianceCareAndMaintenance'']
                          | None \<Rightarrow> catalog_paths C)"
proof (cases caps)
  case (Some d)
  with assms show ?thesis by (auto simp: setup_names_def sources_list_def)
next
  case None
  from assms None consider
      (empty) "names = []"
    | (rebuilt) reported caps' where "rebuild_loop reported C ([], []) = Inr (caps', names)"
    by (auto simp: setup_names_def sources_list_def split: if_splits json.splits sum.splits)
  then show ?thesis
  proof cases
    case empty
    then show ?thesis by simp
  next
    case rebuilt
    from rebuild_loop_names[OF rebuilt] None show ?thesis by simp
  qed
qed

lemma setup_built_for:
  assumes "Some e \<in> set (entity_list (fst (Appliance_setup C COMMON icons a dat)))"
  shows "(\<exists>c \<in> set COMMON. built_for c e)
       \<or> (\<exists>names caps0. setup_names C (state a) (capabilities dat) = Inr (Some names, caps0)
            \<and> (\<exists>c \<in> set names. built_for c e))"
proof (cases "setup_names C (state a) (capabilities dat)")
  case (Inl err)
  with assms show ?thesis by (simp add: Appliance_setup_def entity_list_def)
next
  case (Inr res)
  obtain onames caps0 where res: "res = (onames, caps0)" by (cases res)
  obtain caps1 r1 where c: "common_loop C (pnc_id a) (lib_name dat) onames COMMON caps0 ([], None) = (caps1, r1)"
    by (cases "common_loop C (pnc_id a) (lib_name dat) onames COMMON caps0 ([], None)")
  show ?thesis
  proof (cases r1)
    case (Inl err)
    with c Inr res assms show ?thesis by (simp add: Appliance_setup_def entity_list_def)
  next
    case r1: (Inr loc)
    obtain ents1 ci where loc: "loc = (ents1, ci)" by (cases loc)
    from common_loop_new[OF c[unfolded r1 loc]]
    have n1: "\<forall>e. Some e \<in> set ents1 \<longrightarrow> (\<exists>c \<in> set COMMON. built_for c e)"
      by auto
    show ?thesis
    proof (cases onames)
      case None
      with c Inr res r1 loc assms show ?thesis by (simp add: Appliance_setup_def entity_list_def)
    next
      case (Some names)
      obtain caps2 r2 where l: "capability_loop C icons (pnc_id a) (lib_name dat) ci names caps1 ents1 = (caps2, r2)"
        by (cases "capability_loop C icons (pnc_id a) (lib_name dat) ci names caps1 ents1")
      show ?thesis
      proof (cases r2)
        case (Inl err)
        with c Inr res r1 loc l Some assms show ?thesis
          by (simp add: Appliance_setup_def entity_list_def)
      next
        case r2: (Inr ents2)
        from capability_loop_new[OF l[unfolded r2]]
        obtain new where n2: "ents2 = ents1 @ new"
            "\<forall>e. Some e \<in> set new \<longrightarrow> (\<exists>c \<in> set names. built_for c e)"
          by blast
        have "entity_list (fst (Appliance_setup C COMMON icons a dat)) = fst (setup_entities ents2)"
          using c Inr res r1 loc l Some r2
          by (simp add: Appliance_setup_def entity_list_def split: prod.splits)
        with assms have "Some e \<in> set (fst (setup_entities ents2))" by simp
        from setup_entities_built[OF this]
        obtain e0 where e0: "Some e0 \<in> set ents2" "entity_attr e = entity_attr e0"
            "entity_source e = entity_source e0"
          by blast
        then have same: "built_for c e = built_for c e0" for c by (simp add: built_for_def)
        from e0(1) n2(1) consider "Some e0 \<in> set ents1" | "Some e0 \<in> set new" by auto
        then show ?thesis
        proof cases
          case 1
          then show ?thesis using n1 same by blast
        next
          case 2
          then obtain c where "c \<in> set names" "built_for c e0" using n2(2) by blast
          then show ?thesis using same Inr res Some by auto
        qed
      qed
    qed
  qed
qed

text \<open>
  C10 as stated fails: with the capabilities None the names are rebuilt from the catalog and do
  not pass through \<^verbatim>\<open>sources_list\<close>, so a reported catalog entry of the category
  "applianceCareAndMaintenance0" gets a sensor.
\<close>

theorem rebuilt_maintenance_entity_counterexample:
  "entity_list (fst (Appliance_setup
       [(''threshold'', Device \<lparr>category = Some ''applianceCareAndMaintenance0'',
          capability_info = JDict [(''access'', JStr ''read''), (''type'', JStr ''number'')],
          device_class = None, unit = None, entity_category = None, entity_icon = None\<rparr>)]
       [''connectivityState''] []
       \<lparr>own_capabilties = False, data = None, pnc_id = ''944188772'',
        state = JDict [(''properties'', JDict [(''reported'',
                  JDict [(''applianceCareAndMaintenance0'', JDict [(''threshold'', JInt 3)])])])],
        entities = None\<rparr>
       \<lparr>lib_name = ''Oven'', capabilities = None\<rparr>))
    = [Some \<lparr>e_name = ''Oven threshold'', entity_type = SENSOR,
             entity_attr = ''threshold'', entity_source = ''applianceCareAndMaintenance0'',
             e_pnc_id = ''944188772'',
             capability = JDict [(''access'', JStr ''read''), (''type'', JStr ''number'')],
             e_unit = None, e_entity_category = None, e_device_class = None,
             e_icon = None, val_to_send = None, e_data = True,
             appliance_status = False\<rparr>]
   \<and> get_category ''applianceCareAndMaintenance0/threshold'' = ''applianceCareAndMaintenance0''
   \<and> get_entity_name ''applianceCareAndMaintenance0/threshold'' = ''threshold''
   \<and> startswith ''applianceCareAndMaintenance0/threshold'' ''applianceCareAndMaintenance''"
  by code_simp

text \<open>
  C10, amended. \<^verbatim>\<open>sources_list\<close> gives None for None, and otherwise the keys of the
  capabilities that do not start with "applianceCareAndMaintenance", in their order.
  Consequently, when the capabilities are not None, every entity that \<^verbatim>\<open>setup\<close> leaves in
  the appliance is a common entity, built for a member of COMMON_ATTRIBUTES, or is built for a
  key of the capabilities that does not start with "applianceCareAndMaintenance". When the
  capabilities are None the names are rebuilt, and every entity is a common entity or is built
  for a path of the catalog, whatever the path starts with.
\<close>

theorem entities_of_filtered_keys:
  "sources_list None = None
   \<and> (\<forall>d. sources_list (Some d)
            = Some [key \<leftarrow> map fst d. \<not> startswith key ''applianceCareAndMaintenance''])
   \<and> (\<forall>e. Some e \<in> set (entity_list (fst (Appliance_setup Catalog COMMON_ATTRIBUTES icon_mapping a the_data)))
        \<longrightarrow> (\<exists>c \<in> set COMMON_ATTRIBUTES. built_for c e)
          \<or> (case capabilities the_data of
                Some d \<Rightarrow> \<exists>c \<in> set (map fst d).
                            \<not> startswith c ''applianceCareAndMaintenance'' \<and> built_for c e
              | None \<Rightarrow> \<exists>c \<in> set (catalog_paths Catalog). built_for c e))"
proof -
  have main: "(\<exists>c \<in> set COMMON_ATTRIBUTES. built_for c e)
          \<or> (case capabilities the_data of
                Some d \<Rightarrow> \<exists>c \<in> set (map fst d).
                            \<not> startswith c ''applianceCareAndMaintenance'' \<and> built_for c e
              | None \<Rightarrow> \<exists>c \<in> set (catalog_paths Catalog). built_for c e)"
    if e: "Some e \<in> set (entity_list (fst (Appliance_setup Catalog COMMON_ATTRIBUTES icon_mapping a the_data)))" for e
  proof -
    from setup_built_for[OF e] consider
        (common) "\<exists>c \<in> set COMMON_ATTRIBUTES. built_for c e"
      | (regular) names caps0 c where
          "setup_names Catalog (state a) (capabilities the_data) = Inr (Some names, caps0)"
          "c \<in> set names" "built_for c e"
      by blast
    then show ?thesis
    proof cases
      case common
      then show ?thesis by simp
    next
      case regular
      from setup_names_from[OF regular(1)] regular(2)
      have c: "c \<in> set (case capabilities the_data of
                            Some d \<Rightarrow> [key \<leftarrow> map fst d. \<not> startswith key ''applianceCareAndMaintenance'']
                          | None \<Rightarrow> catalog_paths Catalog)"
        by blast
      show ?thesis
      proof (cases "capabilities the_data")
        case None
        with c regular(3) show ?thesis by auto
      next
        case (Some d)
        with c regular(3) show ?thesis by auto
      qed
    qed
  qed
  show ?thesis using main by (simp add: sources_list_def)
qed

theorem entities_of_filtered_keys_witness:
  "entity_list (fst (Appliance_setup [] [''connectivityState''] []
       \<lparr>own_capabilties = False, data = None, pnc_id = ''944188772'',
        state = JDict [(''properties'', JDict [(''reported'', JDict [(''doorState'', JStr ''OPEN'')])])],
        entities = None\<rparr>
       \<lparr>lib_name = ''Oven'', capabilities = Some
          [(''applianceCareAndMaintenance0/threshold'',
              JDict [(''access'', JStr ''read''), (''type'', JStr ''number'')]),
           (''doorState'', JDict [(''access'', JStr ''read''), (''type'', JStr ''string'')])]\<rparr>))
    = [Some \<lparr>e_name = ''Oven door state'', entity_type = SENSOR,
             entity_attr = ''doorState'', entity_source = [],
             e_pnc_id = ''944188772'',
             capability = JDict [(''access'', JStr ''read''), (''type'', JStr ''string'')],
             e_unit = None, e_entity_category = None, e_device_class = None,
             e_icon = None, val_to_send = None, e_data = True,
             appliance_status = False\<rparr>]
   \<and> built_for ''doorState''
        \<lparr>e_name = ''Oven door state'', entity_type = SENSOR,
          entity_attr = ''doorState'', entity_source = [],
          e_pnc_id = ''944188772'',
          capability = JDict [(''access'', JStr ''read''), (''type'', JStr ''string'')],
          e_unit = None, e_entity_category = None, e_device_class = None,
          e_icon = None, val_to_send = None, e_data = True,
          appliance_status = False\<rparr>
   \<and> sources_list (Some
          [(''applianceCareAndMaintenance0/threshold'',
              JDict [(''access'', JStr ''read''), (''type'', JStr ''number'')]),
           (''doorState'', JDict [(''access'', JStr ''read''), (''type'', JStr ''string'')])])
      = Some [''doorState'']"
proof -
  let ?a = "\<lparr>own_capabilties = False, data = None, pnc_id = ''944188772'',
        state = JDict [(''properties'', JDict [(''reported'', JDict [(''doorState'', JStr ''OPEN'')])])],
        entities = None\<rparr>"
  let ?caps = "[(''applianceCareAndMaintenance0/threshold'',
              JDict [(''access'', JStr ''read''), (''type'', JStr ''number'')]),
           (''doorState'', JDict [(''access'', JStr ''read''), (''type'', JStr ''string'')])]"
  let ?d = "\<lparr>lib_name = ''Oven'', capabilities = Some ?caps\<rparr>"
  let ?e = "\<lparr>e_name = ''Oven door state'', entity_type = SENSOR,
             entity_attr = ''doorState'', entity_source = [],
             e_pnc_id = ''944188772'',
             capability = JDict [(''access'', JStr ''read''), (''type'', JStr ''string'')],
             e_unit = None, e_entity_category = None, e_device_class = None,
             e_icon = None, val_to_send = None, e_data = True,
             appliance_status = False\<rparr>"
  have run: "entity_list (fst (Appliance_setup [] [''connectivityState''] [] ?a ?d)) = [Some ?e]"
    by code_simp
  note inst = entities_of_filtered_keys[of "[]" "[''connectivityState'']" "[]" ?a ?d]
  from inst have sl: "sources_list (Some ?caps) = Some [''doorState'']"
    by (simp add: startswith_def)
  from inst run
  have "(\<exists>c \<in> set [''connectivityState'']. built_for c ?e)
          \<or> (\<exists>c \<in> set (map fst ?caps).
                \<not> startswith c ''applianceCareAndMaintenance'' \<and> built_for c ?e)"
    by simp
  then have "built_for ''doorState'' ?e"
    by (simp add: built_for_def get_entity_name_def get_category_def rpartition_def startswith_def)
  with run sl show ?thesis by simp
qed

end
